theory Spec2Isabelle
  imports Complex_Main
begin

section \<open>JavaScript values, strings and numbers\<close>

text \<open>
  The sources are JavaScript/TypeScript. Strings are modelled as ASCII text (\<open>char list\<close>):
  \<open>trim\<close> removes the ASCII white space of ECMAScript (TAB, LF, VT, FF, CR, SPACE) and
  \<open>toUpperCase\<close> maps \<open>a\<close>..\<open>z\<close> to \<open>A\<close>..\<open>Z\<close>; characters beyond ASCII are left alone.
  A number is modelled by the exact value it has (\<open>real\<close>); \<open>NaN\<close> and the infinities
  appear only where the code tests for them (the result of \<open>parseFloat\<close> and
  \<open>parseInt\<close>). Parsing and printing work on that exact value. The arithmetic of the
  discount reconciliation (\<open>recalcProforma\<close>) is IEEE double arithmetic: each
  subtraction, multiplication and division is rounded to the nearest double
  (\<open>double_round\<close> below).
\<close>

datatype jsval = JUndefined | JNull | JBool bool | JNum real | JStr string

definition is_space :: "char \<Rightarrow> bool" where
  "is_space c = (c \<in> set [CHR 0x09, CHR 0x0A, CHR 0x0B, CHR 0x0C, CHR 0x0D, CHR '' ''])"

definition is_digit :: "char \<Rightarrow> bool" where
  "is_digit c = (c \<in> set ''0123456789'')"

definition digit_val :: "char \<Rightarrow> nat" where
  "digit_val c = of_char c - 48"

definition digit_char :: "nat \<Rightarrow> char" where
  "digit_char d = ''0123456789'' ! (d mod 10)"

text \<open>\<open>String.prototype.trim\<close>.\<close>

definition trim :: "string \<Rightarrow> string" where
  "trim s = rev (dropWhile is_space (rev (dropWhile is_space s)))"

text \<open>\<open>String.prototype.toUpperCase\<close>.\<close>

definition upper_char :: "char \<Rightarrow> char" where
  "upper_char c =
     (case map_of (zip ''abcdefghijklmnopqrstuvwxyz'' ''ABCDEFGHIJKLMNOPQRSTUVWXYZ'') c of
        Some u \<Rightarrow> u
      | None \<Rightarrow> c)"

definition toUpperCase :: "string \<Rightarrow> string" where
  "toUpperCase s = map upper_char s"

text \<open>\<open>String.prototype.padStart(n, "0")\<close>.\<close>

definition padStart :: "nat \<Rightarrow> string \<Rightarrow> string" where
  "padStart n s = replicate (n - length s) (CHR ''0'') @ s"

text \<open>\<open>s.replace(",", r)\<close> with a string pattern: only the first comma is replaced.\<close>

fun replace_first_comma :: "string \<Rightarrow> string \<Rightarrow> string" where
  "replace_first_comma r [] = []"
| "replace_first_comma r (c # cs) =
     (if c = CHR '','' then r @ cs else c # replace_first_comma r cs)"

text \<open>\<open>s.replace(/[^\d.,-]/g, "")\<close>: every character outside the class is deleted.\<close>

definition is_numeric_char :: "char \<Rightarrow> bool" where
  "is_numeric_char c = (is_digit c \<or> c = CHR ''.'' \<or> c = CHR '','' \<or> c = CHR ''-'')"

definition strip_non_numeric :: "string \<Rightarrow> string" where
  "strip_non_numeric s = filter is_numeric_char s"

text \<open>The decimal digits of a natural number, and the number they denote.\<close>

fun show_nat :: "nat \<Rightarrow> string" where
  "show_nat n = (if n < 10 then [digit_char n] else show_nat (n div 10) @ [digit_char (n mod 10)])"

declare show_nat.simps [simp del]

definition digits_to_nat :: "string \<Rightarrow> nat" where
  "digits_to_nat ds = foldl (\<lambda>acc c. 10 * acc + digit_val c) 0 ds"

text \<open>\<open>String(n)\<close> for an integer \<open>n\<close>.\<close>

definition show_int :: "int \<Rightarrow> string" where
  "show_int i = (if i < 0 then CHR ''-'' # show_nat (nat (- i)) else show_nat (nat i))"

text \<open>
  \<open>String(x)\<close> for a number, in plain decimal notation (what JavaScript prints for
  \<open>1e-6 \<le> |x| < 1e21\<close>; the exponent notation used outside that range is not modelled).
  At most 20 fractional digits are produced.
\<close>

fun frac_digits :: "nat \<Rightarrow> real \<Rightarrow> string" where
  "frac_digits 0 f = []"
| "frac_digits (Suc k) f =
     (if f = 0 then []
      else digit_char (nat \<lfloor>10 * f\<rfloor>) # frac_digits k (10 * f - of_int \<lfloor>10 * f\<rfloor>))"

definition number_to_string :: "real \<Rightarrow> string" where
  "number_to_string x =
     (let a = \<bar>x\<bar>; ip = \<lfloor>a\<rfloor>; f = a - of_int ip
      in (if x < 0 then ''-'' else '''') @ show_nat (nat ip) @
         (if f = 0 then '''' else CHR ''.'' # frac_digits 20 f))"

text \<open>\<open>String(value)\<close>, truthiness (\<open>!value\<close>, \<open>value || d\<close>) and \<open>value ?? d\<close>.\<close>

fun js_String :: "jsval \<Rightarrow> string" where
  "js_String JUndefined = ''undefined''"
| "js_String JNull = ''null''"
| "js_String (JBool b) = (if b then ''true'' else ''false'')"
| "js_String (JNum x) = number_to_string x"
| "js_String (JStr s) = s"

fun truthy :: "jsval \<Rightarrow> bool" where
  "truthy JUndefined = False"
| "truthy JNull = False"
| "truthy (JBool b) = b"
| "truthy (JNum x) = (x \<noteq> 0)"
| "truthy (JStr s) = (s \<noteq> [])"

definition js_or :: "jsval \<Rightarrow> jsval \<Rightarrow> jsval" where
  "js_or v d = (if truthy v then v else d)"

fun nullish :: "jsval \<Rightarrow> bool" where
  "nullish JUndefined = True"
| "nullish JNull = True"
| "nullish v = False"

definition js_coalesce :: "jsval \<Rightarrow> jsval \<Rightarrow> jsval" where
  "js_coalesce v d = (if nullish v then d else v)"

text \<open>
  \<open>Number.parseFloat\<close> on a string: an optional sign, then the longest prefix of the form
  digits, optionally a point and digits (or a point and digits). \<open>PNaN\<close> when there is no
  digit, \<open>PInf\<close> when the value rounds to an infinity (from \<open>2^1024 - 2^970\<close> on).
  Leading white space, exponents and the word \<open>Infinity\<close> are not modelled: \<open>cleanNumber\<close>
  deletes every character they need before it calls \<open>parseFloat\<close>.
\<close>

datatype parsed = PNum real | PNaN | PInf

definition split_sign :: "string \<Rightarrow> bool \<times> string" where
  "split_sign s =
     (case s of
        [] \<Rightarrow> (False, [])
      | c # cs \<Rightarrow> if c = CHR ''-'' then (True, cs) else if c = CHR ''+'' then (False, cs) else (False, s))"

definition parseFloat :: "string \<Rightarrow> parsed" where
  "parseFloat s =
     (let (neg, r) = split_sign s;
          ip = takeWhile is_digit r;
          r1 = dropWhile is_digit r;
          fp = (case r1 of [] \<Rightarrow> [] | c # cs \<Rightarrow> if c = CHR ''.'' then takeWhile is_digit cs else [])
      in if ip = [] \<and> fp = [] then PNaN
         else let v = real (digits_to_nat ip) + real (digits_to_nat fp) / 10 ^ length fp
              in if 2 ^ 1024 - 2 ^ 970 \<le> v then PInf
                 else PNum (if neg then - v else v))"

text \<open>\<open>Number.isFinite(parsed) ? parsed : null\<close>.\<close>

fun finite_or_null :: "parsed \<Rightarrow> real option" where
  "finite_or_null (PNum x) = Some x"
| "finite_or_null PNaN = None"
| "finite_or_null PInf = None"

text \<open>
  \<open>Number.parseInt(s, 10)\<close> on a trimmed string: an optional sign and the longest prefix of
  digits; \<open>None\<close> is \<open>NaN\<close>. Lot numbers are modelled as unbounded integers.
\<close>

definition parseInt :: "string \<Rightarrow> int option" where
  "parseInt s =
     (let (neg, r) = split_sign (dropWhile is_space s);
          ds = takeWhile is_digit r
      in if ds = [] then None
         else Some (if neg then - int (digits_to_nat ds) else int (digits_to_nat ds)))"

section \<open>Identifier and normalization module\<close>

text \<open>server.mjs (and App.tsx): \<open>cleanNumber\<close>, the runtime CSV path.\<close>

definition cleanNumber :: "jsval \<Rightarrow> real option" where
  "cleanNumber v =
     (if \<not> truthy v then None
      else finite_or_null (parseFloat (replace_first_comma '''' (strip_non_numeric (js_String v)))))"

text \<open>scripts/seed-supabase-from-csv.mjs: \<open>cleanNumber\<close>, the seed path.\<close>

definition seed_cleanNumber :: "jsval \<Rightarrow> real option" where
  "seed_cleanNumber v =
     (if nullish v \<or> v = JStr '''' then None
      else finite_or_null (parseFloat (replace_first_comma ''.'' (strip_non_numeric (js_String v)))))"

definition ALLOWED_STATUS :: "string set" where
  "ALLOWED_STATUS = {''LIBRE'', ''SEPARADO'', ''VENDIDO''}"

text \<open>server.mjs: \<open>normalizeStatus\<close>.\<close>

definition normalizeStatus :: "jsval \<Rightarrow> string" where
  "normalizeStatus v =
     (let normalized = toUpperCase (trim (js_String (js_or v (JStr ''LIBRE''))))
      in if normalized \<in> ALLOWED_STATUS then normalized else ''LIBRE'')"

text \<open>scripts/seed-supabase-from-csv.mjs: \<open>normalizeStatus\<close>.\<close>

definition seed_normalizeStatus :: "jsval \<Rightarrow> string" where
  "seed_normalizeStatus v =
     (let normalized = toUpperCase (trim (js_String (js_or v (JStr ''LIBRE''))))
      in if normalized = ''SEPARADO'' \<or> normalized = ''VENDIDO'' then normalized else ''LIBRE'')"

text \<open>server.mjs line 40 and App.tsx: \<open>toLoteId\<close> joins its arguments as they are.\<close>

definition toLoteId :: "string \<Rightarrow> int \<Rightarrow> string" where
  "toLoteId mz lote = mz @ ''-'' @ padStart 2 (show_int lote)"

text \<open>lib/lotesService.mjs: the exported \<open>toLoteId\<close> trims and uppercases \<open>mz\<close> itself.\<close>

definition service_toLoteId :: "string \<Rightarrow> int \<Rightarrow> string" where
  "service_toLoteId mz lote = toUpperCase (trim mz) @ ''-'' @ padStart 2 (show_int lote)"

text \<open>server.mjs: \<open>normalizeText\<close> and \<open>formatReal\<close>.\<close>

definition normalizeText :: "jsval \<Rightarrow> string" where
  "normalizeText v = trim (js_String (js_coalesce v (JStr '''')))"

text \<open>
  \<open>x.toFixed(2)\<close>: the integer \<open>n\<close> nearest to \<open>100 * |x|\<close> (the larger one on a tie), printed
  with two decimals after the sign.
\<close>

definition toFixed2 :: "real \<Rightarrow> string" where
  "toFixed2 x =
     (let n = nat \<lfloor>\<bar>x\<bar> * 100 + 1 / 2\<rfloor>
      in (if x < 0 then ''-'' else '''') @ show_nat (n div 100) @ ''.'' @ padStart 2 (show_nat (n mod 100)))"

definition formatReal :: "real option \<Rightarrow> string" where
  "formatReal v = (case v of None \<Rightarrow> '''' | Some x \<Rightarrow> toFixed2 x)"

section \<open>Source adapter: the CSV file and the lots read from it\<close>

text \<open>
  A row as \<open>Papa.parse(text, {header: true})\<close> returns it: one cell per required column, a
  string, or \<open>None\<close> when the key is absent from the parsed object (a header without the
  column, a short line). Columns beyond the nine required ones are never read by the
  handlers and are not modelled.
\<close>

record csv_row =
  MZ :: "string option"
  LOTE :: "string option"
  AREA :: "string option"
  PRECIO :: "string option"
  CONDICION :: "string option"
  ASESOR :: "string option"
  CLIENTE :: "string option"
  COMENTARIO :: "string option"
  ULTIMA_MODIFICACION :: "string option"

text \<open>Reading a cell gives a string or \<open>undefined\<close>.\<close>

fun cell :: "string option \<Rightarrow> jsval" where
  "cell None = JUndefined"
| "cell (Some s) = JStr s"

text \<open>The \<open>Lote\<close> object of the API; an optional property is \<open>None\<close> when \<open>undefined\<close>.\<close>

record Lote =
  lote_id :: string
  mz :: string
  lote :: int
  areaM2 :: "real option"
  price :: "real option"
  condicion :: string
  asesor :: "string option"
  cliente :: "string option"
  comentario :: "string option"
  ultimaModificacion :: "string option"

text \<open>\<open>text || undefined\<close>.\<close>

definition or_undefined :: "string \<Rightarrow> string option" where
  "or_undefined s = (if s = [] then None else Some s)"

text \<open>server.mjs: \<open>mapRowToLote\<close>; \<open>None\<close> is the \<open>null\<close> returned for a malformed row.\<close>

definition mapRowToLote :: "csv_row \<Rightarrow> Lote option" where
  "mapRowToLote row =
     (let mz' = toUpperCase (normalizeText (cell (MZ row)));
          lote' = parseInt (normalizeText (cell (LOTE row)))
      in if mz' = [] \<or> lote' = None then None
         else Some \<lparr> lote_id = toLoteId mz' (the lote'),
                     mz = mz',
                     lote = the lote',
                     areaM2 = cleanNumber (cell (AREA row)),
                     price = cleanNumber (cell (PRECIO row)),
                     condicion = normalizeStatus (cell (CONDICION row)),
                     asesor = or_undefined (normalizeText (cell (ASESOR row))),
                     cliente = or_undefined (normalizeText (cell (CLIENTE row))),
                     comentario = or_undefined (normalizeText (cell (COMENTARIO row))),
                     ultimaModificacion = or_undefined (normalizeText (cell (ULTIMA_MODIFICACION row))) \<rparr>)"

text \<open>\<open>rows.map(mapRowToLote).filter(Boolean)\<close>.\<close>

definition list_lotes :: "csv_row list \<Rightarrow> Lote list" where
  "list_lotes rows = map the (filter (\<lambda>l. l \<noteq> None) (map mapRowToLote rows))"

text \<open>
  The clock read by \<open>new Date()\<close>, in local time: \<open>getMonth\<close> counts from 0.
\<close>

record clock =
  getFullYear :: nat
  getMonth :: nat
  getDate :: nat
  getHours :: nat
  getMinutes :: nat
  getSeconds :: nat
  getMilliseconds :: nat

definition months :: "string list" where
  "months = [''ene'', ''feb'', ''mar'', ''abr'', ''may'', ''jun'',
             ''jul'', ''ago'', ''sep'', ''oct'', ''nov'', ''dic'']"

text \<open>\<open>s.slice(-2)\<close>: the last two characters.\<close>

definition slice_last2 :: "string \<Rightarrow> string" where
  "slice_last2 s = drop (length s - 2) s"

text \<open>server.mjs: \<open>toCurrentTimestamp\<close>, as \<open>dd-mmm-yy hh:mm:ss\<close>.\<close>

definition toCurrentTimestamp :: "clock \<Rightarrow> string" where
  "toCurrentTimestamp now =
     (let dd = padStart 2 (show_nat (getDate now));
          mmm = (if getMonth now < length months then months ! getMonth now else ''undefined'');
          aa = slice_last2 (show_nat (getFullYear now));
          hh = padStart 2 (show_nat (getHours now));
          mi = padStart 2 (show_nat (getMinutes now));
          ss = padStart 2 (show_nat (getSeconds now))
      in dd @ ''-'' @ mmm @ ''-'' @ aa @ '' '' @ hh @ '':'' @ mi @ '':'' @ ss)"

text \<open>
  The file \<open>lotes.csv\<close>: its rows, or \<open>None\<close> when it cannot be read, and the number of
  \<open>fs.writeFile\<close> calls made so far. \<open>Papa.unparse\<close> followed by \<open>Papa.parse\<close> (an external
  library) gives the rows back with every absent cell as the empty string; a failing
  write is not modelled.
\<close>

record disk =
  lotes_csv :: "csv_row list option"
  writes :: nat

datatype error = StorageIO

definition readCsvState :: "disk \<Rightarrow> error + csv_row list" where
  "readCsvState d = (case lotes_csv d of None \<Rightarrow> Inl StorageIO | Some rows \<Rightarrow> Inr rows)"

definition unparse_cell :: "string option \<Rightarrow> string option" where
  "unparse_cell c = Some (case c of None \<Rightarrow> [] | Some s \<Rightarrow> s)"

definition unparse_row :: "csv_row \<Rightarrow> csv_row" where
  "unparse_row r =
     \<lparr> MZ = unparse_cell (MZ r), LOTE = unparse_cell (LOTE r), AREA = unparse_cell (AREA r),
       PRECIO = unparse_cell (PRECIO r), CONDICION = unparse_cell (CONDICION r),
       ASESOR = unparse_cell (ASESOR r), CLIENTE = unparse_cell (CLIENTE r),
       COMENTARIO = unparse_cell (COMENTARIO r),
       ULTIMA_MODIFICACION = unparse_cell (ULTIMA_MODIFICACION r) \<rparr>"

definition writeCsvState :: "csv_row list \<Rightarrow> disk \<Rightarrow> disk" where
  "writeCsvState rows d = d\<lparr> lotes_csv := Some (map unparse_row rows), writes := Suc (writes d) \<rparr>"

section \<open>HTTP facade of server.mjs\<close>

datatype 'a response = Status200 'a | Status404 | Status500

text \<open>\<open>GET /api/lotes\<close>.\<close>

definition get_lotes :: "disk \<Rightarrow> Lote list response" where
  "get_lotes d =
     (case readCsvState d of
        Inl e \<Rightarrow> Status500
      | Inr rows \<Rightarrow> Status200 (list_lotes rows))"

text \<open>The JSON body of \<open>PUT /api/lotes/:id\<close>; an omitted property is \<open>JUndefined\<close>.\<close>

record payload =
  pl_price :: jsval
  pl_asesor :: jsval
  pl_estado :: jsval
  pl_cliente :: jsval
  pl_comentario :: jsval

text \<open>\<open>Array.prototype.findIndex\<close>; \<open>None\<close> is \<open>-1\<close>.\<close>

fun findIndex :: "('a \<Rightarrow> bool) \<Rightarrow> 'a list \<Rightarrow> nat option" where
  "findIndex P [] = None"
| "findIndex P (x # xs) = (if P x then Some 0 else map_option Suc (findIndex P xs))"

text \<open>The callback of \<open>rows.findIndex\<close> in the PUT handler.\<close>

definition row_matches :: "string \<Rightarrow> csv_row \<Rightarrow> bool" where
  "row_matches loteId row =
     (let mz' = toUpperCase (normalizeText (cell (MZ row)));
          lote' = parseInt (normalizeText (cell (LOTE row)))
      in if mz' = [] \<or> lote' = None then False
         else toLoteId mz' (the lote') = loteId)"

text \<open>The assignments the PUT handler makes to the row it found.\<close>

definition update_row :: "clock \<Rightarrow> payload \<Rightarrow> csv_row \<Rightarrow> csv_row" where
  "update_row now p row =
     (let row1 = row\<lparr>
            CONDICION := Some (normalizeStatus (js_coalesce (pl_estado p) (cell (CONDICION row)))),
            ASESOR := Some (normalizeText (js_coalesce (pl_asesor p) (cell (ASESOR row)))),
            CLIENTE := Some (normalizeText (js_coalesce (pl_cliente p) (cell (CLIENTE row)))),
            COMENTARIO := Some (normalizeText (js_coalesce (pl_comentario p) (cell (COMENTARIO row)))),
            ULTIMA_MODIFICACION := Some (toCurrentTimestamp now) \<rparr>
      in if pl_price p \<noteq> JUndefined
         then row1\<lparr> PRECIO := Some (let price' = cleanNumber (pl_price p)
                                     in if price' = None then [] else formatReal price') \<rparr>
         else row1)"

text \<open>
  \<open>PUT /api/lotes/:id\<close>: the response and the file afterwards. The 404 branch returns
  before \<open>writeCsvState\<close>.
\<close>

definition put_lote :: "disk \<Rightarrow> clock \<Rightarrow> string \<Rightarrow> payload \<Rightarrow> Lote option response \<times> disk" where
  "put_lote d now id_param p =
     (let loteId = toUpperCase (normalizeText (JStr id_param))
      in case readCsvState d of
           Inl e \<Rightarrow> (Status500, d)
         | Inr rows \<Rightarrow>
             (case findIndex (row_matches loteId) rows of
                None \<Rightarrow> (Status404, d)
              | Some index \<Rightarrow>
                  (let row = update_row now p (rows ! index);
                       rows' = rows[index := row];
                       d' = writeCsvState rows' d
                   in (Status200 (mapRowToLote row), d'))))"

section \<open>IEEE double arithmetic\<close>

text \<open>
  Rounding a real to the nearest double, ties to even (binary64: 53 significant bits,
  least exponent -1022, so the spacing below \<open>2^-1022\<close> is \<open>2^-1074\<close>). \<open>rne\<close>
  rounds to the nearest integer, ties to even; \<open>exponent x\<close> is the integer \<open>e\<close> with
  \<open>2^e \<le> |x| < 2^(e+1)\<close>; \<open>ulp x\<close> is the spacing of the doubles around \<open>x\<close>.
  Overflow to an infinity is not modelled: the operations of \<open>recalcProforma\<close> never
  produce a value larger than their operands allow (a quotient of at most 1, a percentage
  of at most 100, an amount of at most the regular price).
\<close>

definition rne :: "real \<Rightarrow> int" where
  "rne y =
     (let f = \<lfloor>y\<rfloor>; d = y - of_int f
      in if d < 1 / 2 then f else if 1 / 2 < d then f + 1 else if even f then f else f + 1)"

fun floor_log2 :: "nat \<Rightarrow> nat" where
  "floor_log2 n = (if n < 2 then 0 else Suc (floor_log2 (n div 2)))"

declare floor_log2.simps [simp del]

definition exponent :: "real \<Rightarrow> int" where
  "exponent x =
     (let a = \<bar>x\<bar>
      in if 1 \<le> a then int (floor_log2 (nat \<lfloor>a\<rfloor>))
         else - int (Suc (floor_log2 (nat \<lceil>1 / a\<rceil> - 1))))"

definition ulp :: "real \<Rightarrow> real" where
  "ulp x = 2 powi (max (exponent x) (- 1022) - 52)"

definition double_round :: "real \<Rightarrow> real" where
  "double_round x = of_int (rne (x / ulp x)) * ulp x"

text \<open>The values that are doubles, and the operators \<open>-\<close>, \<open>*\<close>, \<open>/\<close> on them.\<close>

definition is_double :: "real \<Rightarrow> bool" where
  "is_double x \<longleftrightarrow> double_round x = x \<and> \<bar>x\<bar> < 2 ^ 1024"

definition dsub :: "real \<Rightarrow> real \<Rightarrow> real" where
  "dsub a b = double_round (a - b)"

definition dmul :: "real \<Rightarrow> real \<Rightarrow> real" where
  "dmul a b = double_round (a * b)"

definition ddiv :: "real \<Rightarrow> real \<Rightarrow> real" where
  "ddiv a b = double_round (a / b)"

section \<open>Pricing and quote engine of App.tsx\<close>

text \<open>\<open>clamp\<close> and \<open>Math.round\<close>.\<close>

definition clamp :: "real \<Rightarrow> real \<Rightarrow> real \<Rightarrow> real" where
  "clamp v lo hi = min (max v lo) hi"

definition math_round :: "real \<Rightarrow> real" where
  "math_round x = of_int \<lfloor>x + 1 / 2\<rfloor>"

text \<open>
  The numeric fields of \<open>ProformaState\<close>; \<open>cliente\<close>, \<open>lote\<close>, \<open>vendedor\<close> and \<open>creadoEn\<close> are
  copied unchanged by every function below and are left out. \<open>fechaCaducidad\<close> is kept as a
  day number.
\<close>

record ProformaState =
  precioRegular :: real
  precioPromocional :: real
  descuentoSoles :: real
  descuentoPct :: real
  diasVigencia :: real
  fechaCaducidad :: int
  separacion :: real
  inicial :: real
  meses :: real

text \<open>The values of \<open>lastPriceEditedRef.current\<close>; \<open>None\<close> is \<open>null\<close>.\<close>

datatype price_field = Soles | Pct | Promo

text \<open>\<open>x || d\<close> on numbers.\<close>

definition num_or :: "real \<Rightarrow> real \<Rightarrow> real" where
  "num_or x d = (if x = 0 then d else x)"

text \<open>
  App.tsx: \<open>recalcProforma\<close>, given the ref and today's day number. \<open>Math.max\<close>,
  \<open>Math.min\<close> and \<open>clamp\<close> are exact; \<open>-\<close>, \<open>*\<close> and \<open>/\<close> are the double
  operations.
\<close>

definition recalcProforma :: "price_field option \<Rightarrow> int \<Rightarrow> ProformaState \<Rightarrow> ProformaState" where
  "recalcProforma lastPriceEdited today draft =
     (let regular = max (precioRegular draft) 0;
          promo0 = max (precioPromocional draft) 0;
          soles0 = max (descuentoSoles draft) 0;
          pct0 = max (descuentoPct draft) 0;
          (promo, soles, pct) =
            (if lastPriceEdited = Some Soles then
               (let soles1 = clamp soles0 0 regular;
                    pct1 = (if regular \<noteq> 0 then dmul (ddiv soles1 regular) 100 else 0);
                    promo1 = max (dsub regular soles1) 0
                in (promo1, soles1, pct1))
             else if lastPriceEdited = Some Pct then
               (let pct1 = clamp pct0 0 100;
                    soles1 = dmul (ddiv pct1 100) regular;
                    promo1 = max (dsub regular soles1) 0
                in (promo1, soles1, pct1))
             else if lastPriceEdited = Some Promo then
               (let promo1 = clamp promo0 0 regular;
                    soles1 = max (dsub regular promo1) 0;
                    pct1 = (if regular \<noteq> 0 then dmul (ddiv soles1 regular) 100 else 0)
                in (promo1, soles1, pct1))
             else
               (let promo1 = clamp promo0 0 regular;
                    soles1 = max (dsub regular promo1) 0;
                    pct1 = (if regular \<noteq> 0 then dmul (ddiv soles1 regular) 100 else 0)
                in (promo1, soles1, pct1)));
          dias = clamp (math_round (num_or (diasVigencia draft) 0)) 1 30;
          separacion' = max (separacion draft) 0;
          inicial' = max (num_or (inicial draft) 0) 6000;
          meses' = clamp (math_round (num_or (meses draft) 1)) 1 36
      in draft\<lparr> precioRegular := regular,
                precioPromocional := promo,
                descuentoSoles := soles,
                descuentoPct := pct,
                diasVigencia := dias,
                fechaCaducidad := today + \<lfloor>dias\<rfloor>,
                separacion := separacion',
                inicial := inicial',
                meses := meses' \<rparr>)"

text \<open>\<open>updateProforma\<close>: the updater, then \<open>recalcProforma\<close>.\<close>

definition updateProforma ::
  "price_field option \<Rightarrow> int \<Rightarrow> (ProformaState \<Rightarrow> ProformaState) \<Rightarrow> ProformaState \<Rightarrow> ProformaState" where
  "updateProforma lastPriceEdited today updater current =
     recalcProforma lastPriceEdited today (updater current)"

text \<open>
  The \<open>onChange\<close> handlers of the proforma inputs; \<open>v\<close> is \<open>Number(event.target.value || 0)\<close>.
  Each one sets the ref before it calls \<open>updateProforma\<close>.
\<close>

definition onChange_descuentoPct :: "int \<Rightarrow> real \<Rightarrow> ProformaState \<Rightarrow> ProformaState" where
  "onChange_descuentoPct today v current =
     updateProforma (Some Pct) today (\<lambda>c. c\<lparr> descuentoPct := v \<rparr>) current"

definition onChange_precioPromocional :: "int \<Rightarrow> real \<Rightarrow> ProformaState \<Rightarrow> ProformaState" where
  "onChange_precioPromocional today v current =
     updateProforma (Some Promo) today (\<lambda>c. c\<lparr> precioPromocional := v \<rparr>) current"

definition onChange_inicial :: "int \<Rightarrow> real \<Rightarrow> ProformaState \<Rightarrow> ProformaState" where
  "onChange_inicial today v current =
     updateProforma None today (\<lambda>c. c\<lparr> inicial := max v 6000 \<rparr>) current"

text \<open>The amounts financed in the proforma.\<close>

definition precioFinanciarRegular :: "ProformaState \<Rightarrow> real" where
  "precioFinanciarRegular p = max (precioRegular p - separacion p - inicial p) 0"

definition precioFinanciarPromo :: "ProformaState \<Rightarrow> real" where
  "precioFinanciarPromo p = max (precioPromocional p - separacion p - inicial p) 0"

text \<open>The standard quote.\<close>

record QuoteState =
  precio :: real
  inicialMonto :: real
  cuotas :: real
  interesAnual :: real

definition onChange_inicialMonto :: "real \<Rightarrow> QuoteState \<Rightarrow> QuoteState" where
  "onChange_inicialMonto v quote = quote\<lparr> inicialMonto := max v 6000 \<rparr>"

definition quoteMonthly :: "real \<Rightarrow> real \<Rightarrow> real \<Rightarrow> real" where
  "quoteMonthly monto cuotas' interesAnual' =
     (if cuotas' \<le> 0 then 0
      else let i = interesAnual' / 12 / 100
           in if i \<le> 0 then monto / cuotas'
              else let factor = (i * (1 + i) powr cuotas') / ((1 + i) powr cuotas' - 1)
                   in monto * factor)"

definition montoInicial :: "QuoteState \<Rightarrow> real" where
  "montoInicial quote = min (inicialMonto quote) (precio quote)"

definition financiado :: "QuoteState \<Rightarrow> real" where
  "financiado quote = max (precio quote - montoInicial quote) 0"

definition cuota :: "QuoteState \<Rightarrow> real" where
  "cuota quote = quoteMonthly (financiado quote) (cuotas quote) 0"

definition cuotaRapida :: "QuoteState \<Rightarrow> real \<Rightarrow> real \<Rightarrow> real" where
  "cuotaRapida quote meses' inicial' = max ((precio quote - inicial') / meses') 0"

text \<open>\<open>defaultQuote\<close>, the quote before any lot is selected.\<close>

definition defaultQuote :: QuoteState where
  "defaultQuote = \<lparr> precio = 0, inicialMonto = 6000, cuotas = 24, interesAnual = 0 \<rparr>"

text \<open>The invariant of the discount representations, as the specification words it.\<close>

definition proforma_inv :: "ProformaState \<Rightarrow> bool" where
  "proforma_inv r \<longleftrightarrow>
     0 \<le> descuentoSoles r \<and> descuentoSoles r \<le> precioRegular r
   \<and> 0 \<le> descuentoPct r \<and> descuentoPct r \<le> 100
   \<and> precioPromocional r = precioRegular r - descuentoSoles r
   \<and> 0 \<le> precioPromocional r \<and> precioPromocional r \<le> precioRegular r"

text \<open>
  What the code keeps instead: the bounds hold exactly, the identity between the three
  representations holds as the rounded subtraction that computed the dependent field, and
  so up to half a spacing of the doubles.
\<close>

definition reconciled :: "price_field option \<Rightarrow> ProformaState \<Rightarrow> bool" where
  "reconciled e r \<longleftrightarrow>
     0 \<le> descuentoSoles r \<and> descuentoSoles r \<le> precioRegular r
   \<and> 0 \<le> descuentoPct r \<and> descuentoPct r \<le> 100
   \<and> 0 \<le> precioPromocional r \<and> precioPromocional r \<le> precioRegular r
   \<and> (if e = Some Soles \<or> e = Some Pct
       then precioPromocional r = dsub (precioRegular r) (descuentoSoles r)
       else descuentoSoles r = dsub (precioRegular r) (precioPromocional r))
   \<and> \<bar>precioPromocional r - (precioRegular r - descuentoSoles r)\<bar>
       \<le> precioRegular r / 2 ^ 53 + 1 / 2 ^ 1075"

text \<open>
  A proforma as \<open>refreshProformaFromLote\<close> leaves it for a lot priced 45000, before the
  seller types a promotional price.
\<close>

definition fresh_proforma :: ProformaState where
  "fresh_proforma = \<lparr> precioRegular = 45000, precioPromocional = 45000, descuentoSoles = 0,
     descuentoPct = 0, diasVigencia = 3, fechaCaducidad = 3, separacion = 0, inicial = 6000,
     meses = 24 \<rparr>"

section \<open>The specification's words, and a running example\<close>

text \<open>
  The text of a cell (the empty string when the cell is absent), and a malformed row in
  the words of the specification: the block is empty after trimming, or the lot number
  does not parse as an integer.
\<close>

definition cell_text :: "string option \<Rightarrow> string" where
  "cell_text c = (case c of None \<Rightarrow> [] | Some s \<Rightarrow> s)"

definition malformed_row :: "csv_row \<Rightarrow> bool" where
  "malformed_row row \<longleftrightarrow>
     trim (cell_text (MZ row)) = [] \<or> parseInt (trim (cell_text (LOTE row))) = None"

text \<open>
  The end-to-end scenario of the specification: one row \<open>MZ=A, LOTE=7, AREA=120.50,
  PRECIO=45000, CONDICION=libre\<close>, the patch \<open>{estado: "SEPARADO", cliente: "Juan Perez"}\<close>,
  a row with an empty \<open>LOTE\<close>, and two readings of the clock within one second.
\<close>

definition scenario_row :: csv_row where
  "scenario_row = \<lparr> MZ = Some ''A'', LOTE = Some ''7'', AREA = Some ''120.50'',
     PRECIO = Some ''45000'', CONDICION = Some ''libre'', ASESOR = None, CLIENTE = None,
     COMENTARIO = None, ULTIMA_MODIFICACION = None \<rparr>"

definition scenario_bad_row :: csv_row where
  "scenario_bad_row = \<lparr> MZ = Some ''B'', LOTE = Some '''', AREA = Some ''90'',
     PRECIO = Some ''30000'', CONDICION = Some ''LIBRE'', ASESOR = None, CLIENTE = None,
     COMENTARIO = None, ULTIMA_MODIFICACION = None \<rparr>"

definition scenario_lote :: Lote where
  "scenario_lote = \<lparr> lote_id = ''A-07'', mz = ''A'', lote = 7, areaM2 = Some 120.5,
     price = Some 45000, condicion = ''LIBRE'', asesor = None, cliente = None,
     comentario = None, ultimaModificacion = None \<rparr>"

definition scenario_disk :: disk where
  "scenario_disk = \<lparr> lotes_csv = Some [scenario_row], writes = 0 \<rparr>"

definition scenario_patch :: payload where
  "scenario_patch = \<lparr> pl_price = JUndefined, pl_asesor = JUndefined,
     pl_estado = JStr ''SEPARADO'', pl_cliente = JStr ''Juan Perez'', pl_comentario = JUndefined \<rparr>"

definition scenario_t1 :: clock where
  "scenario_t1 = \<lparr> getFullYear = 2026, getMonth = 10, getDate = 2, getHours = 10,
     getMinutes = 15, getSeconds = 7, getMilliseconds = 100 \<rparr>"

definition scenario_t2 :: clock where
  "scenario_t2 = \<lparr> getFullYear = 2026, getMonth = 10, getDate = 2, getHours = 10,
     getMinutes = 15, getSeconds = 7, getMilliseconds = 900 \<rparr>"

definition scenario_lote_patched :: Lote where
  "scenario_lote_patched = \<lparr> lote_id = ''A-07'', mz = ''A'', lote = 7, areaM2 = Some 120.5,
     price = Some 45000, condicion = ''SEPARADO'', asesor = None, cliente = Some ''Juan Perez'',
     comentario = None, ultimaModificacion = Some ''02-nov-26 10:15:07'' \<rparr>"

section \<open>Facts about strings\<close>

lemmas str_eval = trim_def is_space_def toUpperCase_def upper_char_def padStart_def
  show_int_def show_nat.simps digit_char_def is_digit_def is_numeric_char_def
  strip_non_numeric_def split_sign_def digits_to_nat_def digit_val_def

lemmas num_eval = cleanNumber_def seed_cleanNumber_def parseFloat_def parseInt_def

lemma strip_end_hd:
  "xs \<noteq> [] \<Longrightarrow> \<not> P (hd xs) \<Longrightarrow>
     rev (dropWhile P (rev xs)) \<noteq> [] \<and> hd (rev (dropWhile P (rev xs))) = hd xs"
  by (metis Nil_is_rev_conv dropWhile_eq_Nil_conv dropWhile_last hd_rev last_in_set last_rev)

lemma trim_fixed:
  "s \<noteq> [] \<Longrightarrow> \<not> is_space (hd s) \<Longrightarrow> \<not> is_space (last s) \<Longrightarrow> trim s = s"
  by (metis dropWhile_eq_self_iff hd_rev rev_rev_ident trim_def)

lemma trim_Nil [simp]: "trim [] = []"
  by (simp add: trim_def)

lemma trim_ends:
  assumes "trim s \<noteq> []"
  shows "\<not> is_space (hd (trim s))" and "\<not> is_space (last (trim s))"
proof -
  let ?u = "dropWhile is_space s"
  have "?u = [] \<Longrightarrow> trim s = []" by (simp only: trim_def rev.simps dropWhile.simps)
  with assms have u: "?u \<noteq> []" by blast
  then have hu: "\<not> is_space (hd ?u)" by (rule hd_dropWhile)
  from strip_end_hd [of ?u is_space, OF u hu] show "\<not> is_space (hd (trim s))"
    using hu by (simp add: trim_def)
  from assms have "dropWhile is_space (rev ?u) \<noteq> []" by (simp add: trim_def)
  then have "\<not> is_space (hd (dropWhile is_space (rev ?u)))" by (rule hd_dropWhile)
  then show "\<not> is_space (last (trim s))"
    using assms by (simp add: trim_def last_rev)
qed

lemma trim_idem [simp]: "trim (trim s) = trim s"
proof (cases "trim s = []")
  case True
  then show ?thesis by simp
next
  case False
  then show ?thesis by (intro trim_fixed trim_ends)
qed

lemma upper_char_idem [simp]: "upper_char (upper_char c) = upper_char c"
  by (simp add: upper_char_def)

lemma is_space_upper [simp]: "is_space (upper_char c) = is_space c"
  by (simp add: upper_char_def is_space_def)

lemma toUpperCase_idem [simp]: "toUpperCase (toUpperCase s) = toUpperCase s"
  by (simp add: toUpperCase_def)

lemma toUpperCase_Nil_iff [simp]: "toUpperCase s = [] \<longleftrightarrow> s = []"
  by (simp add: toUpperCase_def)

lemma dropWhile_space_upper:
  "dropWhile is_space (map upper_char s) = map upper_char (dropWhile is_space s)"
  by (induction s) simp_all

lemma trim_toUpperCase: "trim (toUpperCase s) = toUpperCase (trim s)"
  by (simp add: trim_def toUpperCase_def dropWhile_space_upper rev_map)

lemma digit_char_is_digit: "is_digit (digit_char d)"
proof -
  have "d mod 10 < length ''0123456789''" by simp
  then have "''0123456789'' ! (d mod 10) \<in> set ''0123456789''" by (rule nth_mem)
  then show ?thesis by (simp only: is_digit_def digit_char_def)
qed

lemma digit_not_space: "is_digit c \<Longrightarrow> \<not> is_space c"
  by (auto simp add: is_digit_def is_space_def)

lemma is_digit_zero: "is_digit (CHR ''0'')"
  by (simp add: is_digit_def)

lemma show_nat_digits: "show_nat n \<noteq> [] \<and> (\<forall>c \<in> set (show_nat n). is_digit c)"
proof (induction n rule: show_nat.induct)
  case (1 n)
  show ?case
  proof (cases "n < 10")
    case True
    then show ?thesis by (simp add: show_nat.simps [of n] digit_char_is_digit)
  next
    case False
    with 1 show ?thesis by (simp add: show_nat.simps [of n] digit_char_is_digit)
  qed
qed

lemma padStart_digits:
  "padStart 2 (show_nat n) \<noteq> [] \<and> (\<forall>c \<in> set (padStart 2 (show_nat n)). is_digit c)"
proof -
  have "set (padStart 2 (show_nat n)) \<subseteq> insert (CHR ''0'') (set (show_nat n))"
    by (auto simp add: padStart_def)
  then show ?thesis
    using show_nat_digits [of n] is_digit_zero by (auto simp add: padStart_def)
qed

lemma toCurrentTimestamp_trim: "trim (toCurrentTimestamp now) = toCurrentTimestamp now"
proof (rule trim_fixed)
  let ?dd = "padStart 2 (show_nat (getDate now))"
  let ?ss = "padStart 2 (show_nat (getSeconds now))"
  show "toCurrentTimestamp now \<noteq> []" by (simp add: toCurrentTimestamp_def Let_def)
  have "hd (toCurrentTimestamp now) = hd ?dd"
    using padStart_digits [of "getDate now"] by (simp add: toCurrentTimestamp_def Let_def)
  moreover have "is_digit (hd ?dd)" using padStart_digits [of "getDate now"] by simp
  ultimately show "\<not> is_space (hd (toCurrentTimestamp now))" by (simp add: digit_not_space)
  have "last (toCurrentTimestamp now) = last ?ss"
    using padStart_digits [of "getSeconds now"] by (simp add: toCurrentTimestamp_def Let_def)
  moreover have "is_digit (last ?ss)" using padStart_digits [of "getSeconds now"] by simp
  ultimately show "\<not> is_space (last (toCurrentTimestamp now))" by (simp add: digit_not_space)
qed

lemma toCurrentTimestamp_nonempty: "toCurrentTimestamp now \<noteq> []"
  by (simp add: toCurrentTimestamp_def Let_def)

section \<open>Normalization: numbers and status\<close>

lemma parseFloat_finite:
  assumes "parseFloat s = PNum x"
  shows "\<bar>x\<bar> < 2 ^ 1024 - 2 ^ 970"
proof -
  obtain neg r where sr: "split_sign s = (neg, r)" by (cases "split_sign s")
  define ip where "ip = takeWhile is_digit r"
  define fp where "fp = (case dropWhile is_digit r of [] \<Rightarrow> [] | c # cs \<Rightarrow> if c = CHR ''.'' then takeWhile is_digit cs else [])"
  define v where "v = real (digits_to_nat ip) + real (digits_to_nat fp) / 10 ^ length fp"
  have v0: "0 \<le> v" by (simp add: v_def)
  have pf: "parseFloat s = (if ip = [] \<and> fp = [] then PNaN else if 2 ^ 1024 - 2 ^ 970 \<le> v then PInf else PNum (if neg then - v else v))"
    by (simp add: parseFloat_def sr ip_def fp_def v_def Let_def)
  from assms pf have "v < 2 ^ 1024 - 2 ^ 970" and "x = (if neg then - v else v)"
    by (auto split: if_splits)
  with v0 show ?thesis by (auto split: if_splits)
qed

lemma cleanNumber_finite: "cleanNumber v = Some x \<Longrightarrow> \<bar>x\<bar> < 2 ^ 1024 - 2 ^ 970"
proof -
  assume a: "cleanNumber v = Some x"
  then have "finite_or_null (parseFloat (replace_first_comma [] (strip_non_numeric (js_String v)))) = Some x"
    by (simp add: cleanNumber_def split: if_splits)
  then have "parseFloat (replace_first_comma [] (strip_non_numeric (js_String v))) = PNum x"
    by (cases "parseFloat (replace_first_comma [] (strip_non_numeric (js_String v)))") simp_all
  then show ?thesis by (rule parseFloat_finite)
qed

lemma parseFloat_Nil: "parseFloat [] = PNaN"
  by (simp add: parseFloat_def split_sign_def)

lemma cleanNumber_str:
  "cleanNumber (JStr s) = finite_or_null (parseFloat (replace_first_comma [] (strip_non_numeric s)))"
  by (cases "s = []") (simp_all add: cleanNumber_def strip_non_numeric_def parseFloat_Nil)

lemma replace_first_comma_none: "CHR '','' \<notin> set t \<Longrightarrow> replace_first_comma r t = t"
  by (induction t) auto

lemma replace_first_comma_split:
  "CHR '','' \<notin> set a \<Longrightarrow> replace_first_comma r (a @ CHR '','' # b) = a @ r @ b"
  by (induction a) auto

lemma replace_first_comma_one:
  "count_list t (CHR '','') \<le> 1 \<Longrightarrow> replace_first_comma [] t = filter (\<lambda>c. c \<noteq> CHR '','') t"
proof (induction t)
  case Nil
  then show ?case by simp
next
  case (Cons c cs)
  show ?case
  proof (cases "c = CHR '',''")
    case True
    with Cons.prems have "count_list cs (CHR '','') = 0" by simp
    then have "CHR '','' \<notin> set cs" by (simp add: count_list_0_iff)
    then have "\<forall>x \<in> set cs. x \<noteq> CHR '',''" by auto
    then have "filter (\<lambda>c. c \<noteq> CHR '','') cs = cs" by (rule filter_True)
    with True show ?thesis by simp
  next
    case False
    with Cons show ?thesis by simp
  qed
qed

lemma count_list_filter_le: "count_list (filter P s) c \<le> count_list s c"
  by (induction s) auto

lemma strip_then_drop_comma:
  "filter (\<lambda>c. c \<noteq> CHR '','') (filter is_numeric_char s) =
     filter (\<lambda>c. is_digit c \<or> c = CHR ''.'' \<or> c = CHR ''-'') s"
  by (induction s) (auto simp add: is_numeric_char_def is_digit_def)

lemma split_sign_append:
  "x \<noteq> [] \<Longrightarrow> split_sign (x @ y) = (fst (split_sign x), snd (split_sign x) @ y)"
  by (cases x) (simp_all add: split_sign_def)

lemma not_digit_comma: "\<not> is_digit (CHR '','')"
  by (simp add: is_digit_def)

lemma fraction_stop:
  "(case dropWhile is_digit (r @ CHR '','' # y) of
      [] \<Rightarrow> []
    | c # cs \<Rightarrow> if c = CHR ''.'' then takeWhile is_digit cs else []) =
   (case dropWhile is_digit r of
      [] \<Rightarrow> []
    | c # cs \<Rightarrow> if c = CHR ''.'' then takeWhile is_digit cs else [])"
proof (cases "dropWhile is_digit r")
  case Nil
  then have "\<And>c. c \<in> set r \<Longrightarrow> is_digit c" by (simp add: dropWhile_eq_Nil_conv)
  then have "dropWhile is_digit (r @ CHR '','' # y) = dropWhile is_digit (CHR '','' # y)"
    by (rule dropWhile_append2)
  then have e: "dropWhile is_digit (r @ CHR '','' # y) = CHR '','' # y"
    by (simp add: not_digit_comma)
  show ?thesis unfolding e Nil by simp
next
  case (Cons d ds)
  then have "\<exists>c \<in> set r. \<not> is_digit c"
    by (metis dropWhile_eq_Nil_conv list.distinct(1))
  then obtain c where "c \<in> set r" "\<not> is_digit c" by blast
  then have e: "dropWhile is_digit (r @ CHR '','' # y) = dropWhile is_digit r @ CHR '','' # y"
    by (rule dropWhile_append1)
  show ?thesis unfolding e Cons
    by (simp add: takeWhile_tail [of is_digit, OF not_digit_comma])
qed

lemma parseFloat_comma_stop: "parseFloat (x @ CHR '','' # y) = parseFloat x"
proof (cases "x = []")
  case True
  then show ?thesis by (simp add: parseFloat_def split_sign_def not_digit_comma)
next
  case False
  obtain neg r where sr: "split_sign x = (neg, r)" by (cases "split_sign x")
  with False have sa: "split_sign (x @ CHR '','' # y) = (neg, r @ CHR '','' # y)"
    by (simp add: split_sign_append)
  show ?thesis
    by (simp only: parseFloat_def sr sa Let_def prod.case fraction_stop
        takeWhile_tail [of is_digit, OF not_digit_comma])
qed

lemma strip_append: "strip_non_numeric (a @ b) = strip_non_numeric a @ strip_non_numeric b"
  by (simp add: strip_non_numeric_def)

lemma strip_comma: "strip_non_numeric (CHR '','' # b) = CHR '','' # strip_non_numeric b"
  by (simp add: strip_non_numeric_def is_numeric_char_def)

lemma strip_no_comma: "CHR '','' \<notin> set a \<Longrightarrow> CHR '','' \<notin> set (strip_non_numeric a)"
  by (simp add: strip_non_numeric_def)

lemma cleanNumber_second_comma:
  assumes "CHR '','' \<notin> set a" "CHR '','' \<notin> set b"
  shows "cleanNumber (JStr (a @ '','' @ b @ '','' @ c)) = cleanNumber (JStr (a @ b))"
proof -
  let ?A = "strip_non_numeric a" and ?B = "strip_non_numeric b" and ?C = "strip_non_numeric c"
  have "strip_non_numeric (a @ '','' @ b @ '','' @ c) = ?A @ CHR '','' # (?B @ CHR '','' # ?C)"
    by (simp add: strip_append strip_comma)
  then have "replace_first_comma [] (strip_non_numeric (a @ '','' @ b @ '','' @ c))
      = (?A @ ?B) @ CHR '','' # ?C"
    using replace_first_comma_split [OF strip_no_comma [OF assms(1)], of "[]"] by simp
  then have l: "cleanNumber (JStr (a @ '','' @ b @ '','' @ c)) = finite_or_null (parseFloat (?A @ ?B))"
    by (simp only: cleanNumber_str parseFloat_comma_stop)
  from assms have "CHR '','' \<notin> set (strip_non_numeric (a @ b))"
    by (simp add: strip_non_numeric_def)
  then have "replace_first_comma [] (strip_non_numeric (a @ b)) = ?A @ ?B"
    by (simp add: replace_first_comma_none strip_append)
  then have "cleanNumber (JStr (a @ b)) = finite_or_null (parseFloat (?A @ ?B))"
    by (simp only: cleanNumber_str)
  with l show ?thesis by simp
qed

lemma cleanNumber_one_comma:
  assumes "count_list s (CHR '','') \<le> 1"
  shows "cleanNumber (JStr s) =
     finite_or_null (parseFloat (filter (\<lambda>c. is_digit c \<or> c = CHR ''.'' \<or> c = CHR ''-'') s))"
proof -
  have "count_list (strip_non_numeric s) (CHR '','') \<le> count_list s (CHR '','')"
    unfolding strip_non_numeric_def by (rule count_list_filter_le)
  with assms have "count_list (strip_non_numeric s) (CHR '','') \<le> 1" by simp
  from replace_first_comma_one [OF this]
  have "replace_first_comma [] (strip_non_numeric s) =
      filter (\<lambda>c. c \<noteq> CHR '','') (filter is_numeric_char s)"
    by (simp only: strip_non_numeric_def)
  then show ?thesis by (simp only: cleanNumber_str strip_then_drop_comma)
qed

text \<open>
  Claim C7 (lenient numeric parsing, runtime path), as amended. For every input string,
  \<open>cleanNumber\<close> deletes all characters except digits, point, comma and minus, then
  deletes the first comma only and parses what is left. A string with at most one comma
  is therefore parsed with its comma removed, as a thousands separator; in a string with
  two or more commas the parse stops at the second comma. The result is \<open>null\<close> (for
  the empty string among others) or a finite number; \<open>"1,234.50"\<close> gives 1234.50 and
  \<open>""\<close> gives \<open>null\<close>. The function is total: no input is rejected.
\<close>
theorem cleanNumber_lenient:
  "cleanNumber (JStr s) =
     finite_or_null (parseFloat (replace_first_comma [] (filter is_numeric_char s)))
   \<and> (count_list s (CHR '','') \<le> 1 \<longrightarrow>
        cleanNumber (JStr s) =
          finite_or_null (parseFloat (filter (\<lambda>c. is_digit c \<or> c = CHR ''.'' \<or> c = CHR ''-'') s)))
   \<and> (CHR '','' \<notin> set a \<and> CHR '','' \<notin> set b \<longrightarrow>
        cleanNumber (JStr (a @ '','' @ b @ '','' @ c)) = cleanNumber (JStr (a @ b)))
   \<and> cleanNumber (JStr (filter is_numeric_char s)) = cleanNumber (JStr s)
   \<and> (cleanNumber (JStr s) = None \<or> (\<exists>x. cleanNumber (JStr s) = Some x \<and> \<bar>x\<bar> < 2 ^ 1024))
   \<and> cleanNumber (JStr ''1,234.50'') = Some 1234.50
   \<and> cleanNumber (JStr '''') = None"
proof -
  have a: "cleanNumber (JStr s) =
     finite_or_null (parseFloat (replace_first_comma [] (filter is_numeric_char s)))"
    using cleanNumber_str [of s] by (simp add: strip_non_numeric_def)
  have a1: "count_list s (CHR '','') \<le> 1 \<longrightarrow>
        cleanNumber (JStr s) =
          finite_or_null (parseFloat (filter (\<lambda>c. is_digit c \<or> c = CHR ''.'' \<or> c = CHR ''-'') s))"
    using cleanNumber_one_comma by blast
  have a2: "CHR '','' \<notin> set a \<and> CHR '','' \<notin> set b \<longrightarrow>
        cleanNumber (JStr (a @ '','' @ b @ '','' @ c)) = cleanNumber (JStr (a @ b))"
    using cleanNumber_second_comma by blast
  have b: "cleanNumber (JStr (filter is_numeric_char s)) = cleanNumber (JStr s)"
    by (simp add: cleanNumber_str strip_non_numeric_def)
  have c: "cleanNumber (JStr s) = None \<or> (\<exists>x. cleanNumber (JStr s) = Some x \<and> \<bar>x\<bar> < 2 ^ 1024)"
  proof (cases "cleanNumber (JStr s)")
    case None
    then show ?thesis by simp
  next
    case (Some x)
    then have "\<bar>x\<bar> < 2 ^ 1024 - 2 ^ 970" by (rule cleanNumber_finite)
    then have "\<bar>x\<bar> < 2 ^ 1024" by simp
    with Some show ?thesis by simp
  qed
  have d: "cleanNumber (JStr ''1,234.50'') = Some 1234.50"
    by (simp add: num_eval str_eval)
  have e: "cleanNumber (JStr '''') = None" by (simp add: cleanNumber_def)
  from a a1 a2 b c d e show ?thesis by blast
qed

theorem cleanNumber_lenient_witness:
  "count_list ''S/ 45,000.75'' (CHR '','') \<le> 1
   \<and> cleanNumber (JStr ''S/ 45,000.75'') = Some 45000.75
   \<and> CHR '','' \<notin> set ''S/ 1'' \<and> CHR '','' \<notin> set ''234''
   \<and> cleanNumber (JStr ''S/ 1,234,567.50'') = Some 1234"
proof -
  have h1: "count_list ''S/ 45,000.75'' (CHR '','') \<le> 1" by simp
  have h2: "CHR '','' \<notin> set ''S/ 1'' \<and> CHR '','' \<notin> set ''234''" by simp
  have "cleanNumber (JStr ''S/ 45,000.75'') =
      finite_or_null (parseFloat (filter (\<lambda>c. is_digit c \<or> c = CHR ''.'' \<or> c = CHR ''-'')
        ''S/ 45,000.75''))"
    using cleanNumber_lenient [of "''S/ 45,000.75''", THEN conjunct2, THEN conjunct1] h1
    by blast
  then have r1: "cleanNumber (JStr ''S/ 45,000.75'') = Some 45000.75"
    by (simp add: parseFloat_def str_eval)
  have "cleanNumber (JStr (''S/ 1'' @ '','' @ ''234'' @ '','' @ ''567.50'')) =
      cleanNumber (JStr (''S/ 1'' @ ''234''))"
    using cleanNumber_lenient [of "''x''" "''S/ 1''" "''234''" "''567.50''",
        THEN conjunct2, THEN conjunct2, THEN conjunct1] h2
    by blast
  then have "cleanNumber (JStr ''S/ 1,234,567.50'') = cleanNumber (JStr ''S/ 1234'')"
    by simp
  then have r2: "cleanNumber (JStr ''S/ 1,234,567.50'') = Some 1234"
    by (simp add: num_eval str_eval)
  from h1 h2 r1 r2 show ?thesis by blast
qed

theorem cleanNumber_lenient_counterexample:
  "cleanNumber (JStr ''1,234,567.50'') = Some 1234
   \<and> cleanNumber (JStr ''1,234,567.50'') \<noteq> Some 1234567.50
   \<and> cleanNumber (JStr ''2,500,000'') = Some 2500"
  by (simp add: num_eval str_eval)


lemma normalizeStatus_closed: "normalizeStatus v \<in> ALLOWED_STATUS"
  by (simp add: normalizeStatus_def ALLOWED_STATUS_def Let_def)

lemma seed_normalizeStatus_eq: "seed_normalizeStatus v = normalizeStatus v"
  by (auto simp add: seed_normalizeStatus_def normalizeStatus_def ALLOWED_STATUS_def Let_def)

lemma normalizeStatus_str:
  "normalizeStatus (JStr s) =
     (if toUpperCase (trim s) \<in> ALLOWED_STATUS then toUpperCase (trim s) else ''LIBRE'')"
proof (cases "s = []")
  case True
  then show ?thesis by (simp add: normalizeStatus_def js_or_def ALLOWED_STATUS_def str_eval)
next
  case False
  then show ?thesis by (simp add: normalizeStatus_def js_or_def)
qed

lemma normalizeStatus_falsy: "\<not> truthy v \<Longrightarrow> normalizeStatus v = ''LIBRE''"
  by (simp add: normalizeStatus_def js_or_def ALLOWED_STATUS_def str_eval)

lemma normalizeStatus_idem: "normalizeStatus (JStr (normalizeStatus v)) = normalizeStatus v"
proof -
  have "normalizeStatus v \<in> ALLOWED_STATUS" by (rule normalizeStatus_closed)
  then consider "normalizeStatus v = ''LIBRE''" | "normalizeStatus v = ''SEPARADO''"
    | "normalizeStatus v = ''VENDIDO''" by (auto simp add: ALLOWED_STATUS_def)
  then show ?thesis
  proof cases
    case 1
    then show ?thesis by (simp add: normalizeStatus_str ALLOWED_STATUS_def str_eval)
  next
    case 2
    then show ?thesis by (simp add: normalizeStatus_str ALLOWED_STATUS_def str_eval)
  next
    case 3
    then show ?thesis by (simp add: normalizeStatus_str ALLOWED_STATUS_def str_eval)
  qed
qed

text \<open>
  Claim C8 (status closure). \<open>normalizeStatus\<close> always returns one of LIBRE, SEPARADO,
  VENDIDO: a string is trimmed and uppercased and returned if it is one of the three,
  everything else (the empty string, \<open>null\<close>, \<open>undefined\<close>, other text) gives LIBRE. The
  seed script's copy computes the same function.
\<close>
theorem normalizeStatus_closure:
  "normalizeStatus v \<in> {''LIBRE'', ''SEPARADO'', ''VENDIDO''}
   \<and> normalizeStatus (JStr s) =
       (if toUpperCase (trim s) \<in> {''LIBRE'', ''SEPARADO'', ''VENDIDO''}
        then toUpperCase (trim s) else ''LIBRE'')
   \<and> normalizeStatus JNull = ''LIBRE'' \<and> normalizeStatus JUndefined = ''LIBRE''
   \<and> normalizeStatus (JStr ''separado'') = ''SEPARADO''
   \<and> normalizeStatus (JStr '''') = ''LIBRE''
   \<and> normalizeStatus (JStr ''x'') = ''LIBRE''
   \<and> seed_normalizeStatus v = normalizeStatus v"
proof -
  have a: "normalizeStatus v \<in> {''LIBRE'', ''SEPARADO'', ''VENDIDO''}"
    using normalizeStatus_closed [of v] by (simp only: ALLOWED_STATUS_def)
  have b: "normalizeStatus (JStr s) =
       (if toUpperCase (trim s) \<in> {''LIBRE'', ''SEPARADO'', ''VENDIDO''}
        then toUpperCase (trim s) else ''LIBRE'')"
    using normalizeStatus_str [of s] by (simp only: ALLOWED_STATUS_def)
  have c: "normalizeStatus JNull = ''LIBRE''" "normalizeStatus JUndefined = ''LIBRE''"
    by (simp_all add: normalizeStatus_falsy)
  have d: "normalizeStatus (JStr ''separado'') = ''SEPARADO''"
    by (simp add: normalizeStatus_str ALLOWED_STATUS_def str_eval)
  have e: "normalizeStatus (JStr '''') = ''LIBRE''" by (simp add: normalizeStatus_falsy)
  have f: "normalizeStatus (JStr ''x'') = ''LIBRE''"
    by (simp add: normalizeStatus_str ALLOWED_STATUS_def str_eval)
  from a b c d e f seed_normalizeStatus_eq [of v] show ?thesis by blast
qed

theorem normalizeStatus_closure_witness:
  "normalizeStatus (JStr '' Vendido '') = ''VENDIDO''
   \<and> seed_normalizeStatus (JStr '' Vendido '') = ''VENDIDO''"
  using normalizeStatus_closure [of "JStr '' Vendido ''" "'' Vendido ''"]
  by (simp add: str_eval)

section \<open>Facts about double rounding\<close>

lemma floor_log2_bounds: "0 < n \<Longrightarrow> 2 ^ floor_log2 n \<le> n \<and> n < 2 ^ Suc (floor_log2 n)"
proof (induction n rule: floor_log2.induct)
  case (1 n)
  show ?case
  proof (cases "n < 2")
    case True
    with 1 show ?thesis by (simp add: floor_log2.simps [of n])
  next
    case False
    then have "0 < n div 2" by simp
    with 1 False have ih: "2 ^ floor_log2 (n div 2) \<le> n div 2" "n div 2 < 2 ^ Suc (floor_log2 (n div 2))"
      by simp_all
    from False have e: "floor_log2 n = Suc (floor_log2 (n div 2))" by (simp add: floor_log2.simps [of n])
    from ih show ?thesis unfolding e by auto
  qed
qed

lemma rne_cases: "rne y = \<lfloor>y\<rfloor> \<or> rne y = \<lfloor>y\<rfloor> + 1"
  by (simp add: rne_def Let_def)

lemma rne_of_int [simp]: "rne (of_int k) = k"
  by (simp add: rne_def)

lemma rne_lower: "rne y = \<lfloor>y\<rfloor> \<Longrightarrow> y - of_int \<lfloor>y\<rfloor> \<le> 1 / 2"
  by (auto simp add: rne_def Let_def split: if_splits)

lemma rne_upper: "rne y = \<lfloor>y\<rfloor> + 1 \<Longrightarrow> 1 / 2 \<le> y - of_int \<lfloor>y\<rfloor>"
  by (auto simp add: rne_def Let_def split: if_splits)

lemma rne_error: "\<bar>of_int (rne y) - y\<bar> \<le> 1 / 2"
proof -
  have f: "of_int \<lfloor>y\<rfloor> \<le> y" "y < of_int \<lfloor>y\<rfloor> + 1" by linarith+
  from rne_cases [of y] show ?thesis
  proof
    assume a: "rne y = \<lfloor>y\<rfloor>"
    from rne_lower [OF a] f show ?thesis unfolding a by linarith
  next
    assume a: "rne y = \<lfloor>y\<rfloor> + 1"
    from rne_upper [OF a] f show ?thesis unfolding a by simp
  qed
qed

lemma rne_mono: "y \<le> z \<Longrightarrow> rne y \<le> rne z"
proof -
  assume yz: "y \<le> z"
  then have fl: "\<lfloor>y\<rfloor> \<le> \<lfloor>z\<rfloor>" by (rule floor_mono)
  show ?thesis
  proof (cases "\<lfloor>y\<rfloor> = \<lfloor>z\<rfloor>")
    case False
    with fl have "\<lfloor>y\<rfloor> + 1 \<le> \<lfloor>z\<rfloor>" by simp
    with rne_cases [of y] rne_cases [of z] show ?thesis by linarith
  next
    case True
    show ?thesis
    proof (rule ccontr)
      assume "\<not> rne y \<le> rne z"
      with rne_cases [of y] rne_cases [of z] True
      have a: "rne y = \<lfloor>y\<rfloor> + 1" and b: "rne z = \<lfloor>z\<rfloor>" by linarith+
      from rne_upper [OF a] rne_lower [OF b] True yz
      have "y - of_int \<lfloor>y\<rfloor> = 1 / 2" "z - of_int \<lfloor>y\<rfloor> = 1 / 2" by simp_all
      then have "y = z" by simp
      with a b True show False by simp
    qed
  qed
qed

lemma exponent_bounds:
  assumes "x \<noteq> 0"
  shows "2 powi exponent x \<le> \<bar>x\<bar>" and "\<bar>x\<bar> < 2 powi (exponent x + 1)"
proof -
  let ?a = "\<bar>x\<bar>"
  from assms have a0: "0 < ?a" by simp
  have "2 powi exponent x \<le> ?a \<and> ?a < 2 powi (exponent x + 1)"
  proof (cases "1 \<le> ?a")
    case True
    let ?n = "nat \<lfloor>?a\<rfloor>"
    from True have n0: "0 < ?n" by simp
    have e: "exponent x = int (floor_log2 ?n)" using True by (simp add: exponent_def)
    from floor_log2_bounds [OF n0] have b: "2 ^ floor_log2 ?n \<le> ?n" "Suc ?n \<le> 2 ^ Suc (floor_log2 ?n)"
      by simp_all
    have na: "real ?n \<le> ?a" "?a < real (Suc ?n)" using True by linarith+
    from b(1) have "(2::real) ^ floor_log2 ?n \<le> real ?n"
      by (metis of_nat_le_iff of_nat_numeral of_nat_power)
    moreover from b(2) have "real (Suc ?n) \<le> 2 ^ Suc (floor_log2 ?n)"
      by (metis of_nat_le_iff of_nat_numeral of_nat_power)
    ultimately have "(2::real) ^ floor_log2 ?n \<le> ?a" "?a < 2 ^ Suc (floor_log2 ?n)"
      using na by linarith+
    then show ?thesis unfolding e by (simp add: power_int_add)
  next
    case False
    define z where "z = 1 / ?a"
    define n where "n = nat \<lceil>z\<rceil>"
    define k where "k = floor_log2 (n - 1)"
    from False a0 have z1: "1 < z" by (simp add: z_def field_simps)
    then have "1 < \<lceil>z\<rceil>" by (simp add: less_ceiling_iff)
    then have n2: "2 \<le> n" unfolding n_def by linarith
    then have m0: "0 < n - 1" by linarith
    have e: "exponent x = - int (Suc k)"
      using False by (simp add: exponent_def k_def n_def z_def)
    from floor_log2_bounds [OF m0] have "2 ^ k \<le> n - 1" "n - 1 < 2 ^ Suc k"
      unfolding k_def by blast+
    with n2 have b: "2 ^ k \<le> n - 1" "n \<le> 2 ^ Suc k" by linarith+
    have zn: "z \<le> real n" "real (n - 1) < z" using z1 n2 unfolding n_def by linarith+
    from b(2) have "real n \<le> 2 ^ Suc k"
      by (metis of_nat_le_iff of_nat_numeral of_nat_power)
    with zn(1) have u: "z \<le> 2 ^ Suc k" by linarith
    from b(1) have "(2::real) ^ k \<le> real (n - 1)"
      by (metis of_nat_le_iff of_nat_numeral of_nat_power)
    with zn(2) have l: "2 ^ k < z" by linarith
    have az: "?a = 1 / z" using a0 by (simp add: z_def)
    have z0: "0 < z" using z1 by simp
    from u z0 have "1 / 2 ^ Suc k \<le> 1 / z"
      by (intro divide_left_mono) simp_all
    moreover from l z0 have "1 / z < 1 / 2 ^ k"
      by (intro divide_strict_left_mono) simp_all
    moreover have "(2::real) powi (- int (Suc k)) = 1 / 2 ^ Suc k"
      by (simp only: power_int_minus power_int_of_nat inverse_eq_divide)
    moreover have "(2::real) powi (- int (Suc k) + 1) = 1 / 2 ^ k"
    proof -
      have "- int (Suc k) + 1 = - int k" by simp
      then show ?thesis by (simp only: power_int_minus power_int_of_nat inverse_eq_divide)
    qed
    ultimately show ?thesis unfolding e az by simp
  qed
  then show "2 powi exponent x \<le> \<bar>x\<bar>" and "\<bar>x\<bar> < 2 powi (exponent x + 1)" by simp_all
qed

lemma powi_shift: "(2::real) powi (b + int n) = 2 ^ n * 2 powi b"
  by (simp add: power_int_add)
lemma powi_unshift: "(2::real) powi (b - int n) = 2 powi b / 2 ^ n"
  by (simp add: power_int_diff)
lemma p53: "(2::real) powi (b + 1) = 2 ^ 53 * 2 powi (b - 52)"
  using powi_shift [of "b - 52" 53] by (simp add: add.commute)
lemma p52: "(2::real) powi b = 2 ^ 52 * 2 powi (b - 52)"
  using powi_shift [of "b - 52" 52] by simp
lemma m52: "(2::real) powi (b - 52) = 2 powi b / 2 ^ 52"
  using powi_unshift [of b 52] by simp
lemma m1074: "(2::real) powi (- 1022 - 52) = 1 / 2 ^ 1074"
  using powi_unshift [of 0 1074] by simp

lemma ulp_pos: "0 < ulp x"
  by (simp add: ulp_def)

lemma double_round_zero [simp]: "double_round 0 = 0"
  by (simp add: double_round_def rne_def)

lemma double_round_nonneg: "0 \<le> x \<Longrightarrow> 0 \<le> double_round x"
proof -
  assume "0 \<le> x"
  then have "0 \<le> x / ulp x" using ulp_pos [of x] by simp
  then have "rne 0 \<le> rne (x / ulp x)" by (rule rne_mono)
  then have "0 \<le> rne (x / ulp x)" using rne_of_int [of 0] by simp
  then show ?thesis using ulp_pos [of x] by (simp add: double_round_def)
qed

lemma exponent_mono:
  assumes "0 < x" "x \<le> y"
  shows "exponent x \<le> exponent y"
proof (rule ccontr)
  assume "\<not> exponent x \<le> exponent y"
  then have "exponent y + 1 \<le> exponent x" by simp
  then have "(2::real) powi (exponent y + 1) \<le> 2 powi exponent x"
    by (intro power_int_increasing) simp_all
  moreover from assms have "2 powi exponent x \<le> x" "y < 2 powi (exponent y + 1)"
    using exponent_bounds [of x] exponent_bounds [of y] by simp_all
  ultimately show False using assms by linarith
qed

lemma double_round_upper:
  assumes "0 < x"
  shows "double_round x \<le> 2 powi (max (exponent x) (- 1022) + 1)"
proof -
  let ?b = "max (exponent x) (- 1022)"
  have u: "ulp x = 2 powi (?b - 52)" by (simp add: ulp_def)
  from assms have "x < 2 powi (exponent x + 1)" using exponent_bounds(2) [of x] by simp
  also have "(2::real) powi (exponent x + 1) \<le> 2 powi (?b + 1)"
    by (intro power_int_increasing) simp_all
  finally have "x < 2 powi (?b + 1)" .
  moreover have "(2::real) powi (?b + 1) = 2 ^ 53 * ulp x"
    unfolding u by (rule p53)
  ultimately have "x / ulp x \<le> 2 ^ 53" using ulp_pos [of x] by (simp add: field_simps)
  then have "x / ulp x \<le> of_int (2 ^ 53)" by simp
  then have "rne (x / ulp x) \<le> rne (of_int (2 ^ 53))" by (rule rne_mono)
  then have "rne (x / ulp x) \<le> 2 ^ 53" by (simp only: rne_of_int)
  then have "real_of_int (rne (x / ulp x)) \<le> real_of_int (2 ^ 53)" by (simp only: of_int_le_iff)
  then have "real_of_int (rne (x / ulp x)) \<le> 2 ^ 53" by simp
  then have "double_round x \<le> 2 ^ 53 * ulp x"
    using ulp_pos [of x] by (simp add: double_round_def)
  with \<open>(2::real) powi (?b + 1) = 2 ^ 53 * ulp x\<close> show ?thesis by simp
qed

lemma double_round_lower:
  assumes "0 < y" "- 1022 \<le> exponent y"
  shows "2 powi exponent y \<le> double_round y"
proof -
  have b: "max (exponent y) (- 1022) = exponent y" using assms(2) by simp
  have u: "ulp y = 2 powi (exponent y - 52)" by (simp add: ulp_def b)
  have p: "(2::real) powi exponent y = 2 ^ 52 * ulp y"
    unfolding u by (rule p52)
  from assms have "2 powi exponent y \<le> y" using exponent_bounds(1) [of y] by simp
  then have "2 ^ 52 \<le> y / ulp y" using ulp_pos [of y] by (simp add: p field_simps)
  then have "of_int (2 ^ 52) \<le> y / ulp y" by simp
  then have "rne (of_int (2 ^ 52)) \<le> rne (y / ulp y)" by (rule rne_mono)
  then have "2 ^ 52 \<le> rne (y / ulp y)" by (simp only: rne_of_int)
  then have "real_of_int (2 ^ 52) \<le> real_of_int (rne (y / ulp y))" by (simp only: of_int_le_iff)
  then have "2 ^ 52 \<le> real_of_int (rne (y / ulp y))" by simp
  then have "2 ^ 52 * ulp y \<le> double_round y"
    using ulp_pos [of y] by (simp add: double_round_def)
  with p show ?thesis by simp
qed

lemma double_round_mono:
  assumes "0 \<le> x" "x \<le> y"
  shows "double_round x \<le> double_round y"
proof (cases "x = 0")
  case True
  with assms show ?thesis by (simp add: double_round_nonneg)
next
  case False
  with assms have x0: "0 < x" and y0: "0 < y" by simp_all
  let ?bx = "max (exponent x) (- 1022)"
  let ?by = "max (exponent y) (- 1022)"
  from exponent_mono [OF x0 assms(2)] have le: "?bx \<le> ?by" by simp
  show ?thesis
  proof (cases "?bx = ?by")
    case True
    then have u: "ulp x = ulp y" by (simp add: ulp_def)
    from assms(2) have "x / ulp y \<le> y / ulp y" using ulp_pos [of y] by (simp add: divide_right_mono)
    then have "rne (x / ulp y) \<le> rne (y / ulp y)" by (rule rne_mono)
    then show ?thesis using ulp_pos [of y] by (simp add: double_round_def u)
  next
    case False
    with le have lt: "?bx + 1 \<le> ?by" by simp
    then have ey: "?by = exponent y" "- 1022 \<le> exponent y" by simp_all
    have "double_round x \<le> 2 powi (?bx + 1)" by (rule double_round_upper [OF x0])
    also have "(2::real) powi (?bx + 1) \<le> 2 powi ?by" using lt by (intro power_int_increasing) simp_all
    also have "\<dots> = 2 powi exponent y" by (simp only: ey(1))
    also have "\<dots> \<le> double_round y" by (rule double_round_lower [OF y0 ey(2)])
    finally show ?thesis .
  qed
qed

lemma double_round_error: "\<bar>double_round x - x\<bar> \<le> ulp x / 2"
proof -
  have "double_round x - x = (of_int (rne (x / ulp x)) - x / ulp x) * ulp x"
    using ulp_pos [of x] by (simp add: double_round_def field_simps)
  then have "\<bar>double_round x - x\<bar> = \<bar>of_int (rne (x / ulp x)) - x / ulp x\<bar> * ulp x"
    using ulp_pos [of x] by (simp add: abs_mult)
  also have "\<dots> \<le> (1 / 2) * ulp x"
    using rne_error [of "x / ulp x"] ulp_pos [of x] by (intro mult_right_mono) simp_all
  finally show ?thesis by simp
qed

lemma ulp_bound:
  assumes "0 < x"
  shows "ulp x \<le> x / 2 ^ 52 + 1 / 2 ^ 1074"
proof (cases "- 1022 \<le> exponent x")
  case True
  then have u: "ulp x = 2 powi (exponent x - 52)" by (simp add: ulp_def)
  have "(2::real) powi (exponent x - 52) = 2 powi exponent x / 2 ^ 52" by (rule m52)
  also have "\<dots> \<le> x / 2 ^ 52"
    using assms exponent_bounds(1) [of x] by (simp add: divide_right_mono)
  finally show ?thesis by (simp add: u)
next
  case False
  then have "max (exponent x) (- 1022) = - 1022" by simp
  then have "ulp x = 2 powi (- 1022 - 52)" by (simp add: ulp_def)
  also have "(2::real) powi (- 1022 - 52) = 1 / 2 ^ 1074" by (rule m1074)
  finally show ?thesis using assms by (simp add: add_increasing)
qed

lemma double_round_tolerance:
  assumes "0 \<le> x"
  shows "\<bar>double_round x - x\<bar> \<le> x / 2 ^ 53 + 1 / 2 ^ 1075"
proof (cases "x = 0")
  case True
  then show ?thesis by simp
next
  case False
  with assms have x0: "0 < x" by simp
  have "\<bar>double_round x - x\<bar> \<le> ulp x / 2" by (rule double_round_error)
  also have "\<dots> \<le> (x / 2 ^ 52 + 1 / 2 ^ 1074) / 2"
    using ulp_bound [OF x0] by simp
  also have "\<dots> = x / 2 ^ 53 + 1 / 2 ^ 1075" by simp
  finally show ?thesis .
qed

lemma double_round_values:
  "double_round 1 = 1" "double_round 100 = 100" "double_round (1 / 2) = 1 / 2"
  "double_round 45000 = 45000"
  by (simp_all add: double_round_def ulp_def exponent_def rne_def floor_log2.simps)

section \<open>Pricing: discount reconciliation and the down-payment floor\<close>

lemma is_double_max0: "is_double x \<Longrightarrow> double_round (max x 0) = max x 0"
  by (simp add: is_double_def max_def)

lemma dsub_bounds:
  assumes "double_round regular = regular" "0 \<le> s" "s \<le> regular"
  shows "0 \<le> dsub regular s" and "dsub regular s \<le> regular"
    and "max (dsub regular s) 0 = dsub regular s"
    and "\<bar>dsub regular s - (regular - s)\<bar> \<le> regular / 2 ^ 53 + 1 / 2 ^ 1075"
proof -
  from assms have d: "0 \<le> regular - s" "regular - s \<le> regular" by simp_all
  show a: "0 \<le> dsub regular s" unfolding dsub_def by (rule double_round_nonneg [OF d(1)])
  from double_round_mono [OF d] show "dsub regular s \<le> regular"
    by (simp add: dsub_def assms(1))
  from a show "max (dsub regular s) 0 = dsub regular s" by simp
  have "\<bar>dsub regular s - (regular - s)\<bar> \<le> (regular - s) / 2 ^ 53 + 1 / 2 ^ 1075"
    unfolding dsub_def by (rule double_round_tolerance [OF d(1)])
  also have "\<dots> \<le> regular / 2 ^ 53 + 1 / 2 ^ 1075"
    using d(2) by (simp add: divide_right_mono)
  finally show "\<bar>dsub regular s - (regular - s)\<bar> \<le> regular / 2 ^ 53 + 1 / 2 ^ 1075" .
qed

lemma ratio_bounds:
  assumes "0 \<le> s" "s \<le> t" "0 < t"
  shows "0 \<le> ddiv s t" and "ddiv s t \<le> 1"
proof -
  from assms have q: "0 \<le> s / t" "s / t \<le> 1" by (simp_all add: divide_le_eq)
  show "0 \<le> ddiv s t" unfolding ddiv_def by (rule double_round_nonneg [OF q(1)])
  from double_round_mono [OF q] show "ddiv s t \<le> 1"
    by (simp add: ddiv_def double_round_values)
qed

lemma pct_of_bounds:
  assumes "0 \<le> s" "s \<le> regular"
  shows "0 \<le> (if regular \<noteq> 0 then dmul (ddiv s regular) 100 else 0)"
    and "(if regular \<noteq> 0 then dmul (ddiv s regular) 100 else 0) \<le> 100"
proof -
  show "0 \<le> (if regular \<noteq> 0 then dmul (ddiv s regular) 100 else 0)"
  proof (cases "regular = 0")
    case True
    then show ?thesis by simp
  next
    case False
    with assms have r: "0 < regular" by simp
    from ratio_bounds(1) [OF assms r] have "0 \<le> ddiv s regular * 100" by simp
    then have "0 \<le> dmul (ddiv s regular) 100" unfolding dmul_def by (rule double_round_nonneg)
    with False show ?thesis by simp
  qed
  show "(if regular \<noteq> 0 then dmul (ddiv s regular) 100 else 0) \<le> 100"
  proof (cases "regular = 0")
    case True
    then show ?thesis by simp
  next
    case False
    with assms have r: "0 < regular" by simp
    from ratio_bounds [OF assms r] have q: "0 \<le> ddiv s regular * 100" "ddiv s regular * 100 \<le> 100"
      by simp_all
    from double_round_mono [OF q] have "dmul (ddiv s regular) 100 \<le> 100"
      by (simp add: dmul_def double_round_values)
    with False show ?thesis by simp
  qed
qed

lemma share_bounds:
  assumes "double_round regular = regular" "0 \<le> regular" "0 \<le> p" "p \<le> 100"
  shows "0 \<le> dmul (ddiv p 100) regular" and "dmul (ddiv p 100) regular \<le> regular"
proof -
  from ratio_bounds [OF assms(3,4)] have q: "0 \<le> ddiv p 100" "ddiv p 100 \<le> 1" by simp_all
  from q(1) assms(2) have m0: "0 \<le> ddiv p 100 * regular" by (rule mult_nonneg_nonneg)
  from assms(2) q have m1: "ddiv p 100 * regular \<le> regular" by (rule mult_left_le_one_le)
  show "0 \<le> dmul (ddiv p 100) regular" unfolding dmul_def by (rule double_round_nonneg [OF m0])
  from double_round_mono [OF m0 m1] show "dmul (ddiv p 100) regular \<le> regular"
    by (simp add: dmul_def assms(1))
qed

lemma recalc_soles:
  "recalcProforma (Some Soles) today draft =
     (let regular = max (precioRegular draft) 0;
          soles = clamp (max (descuentoSoles draft) 0) 0 regular
      in draft\<lparr> precioRegular := regular,
                precioPromocional := max (dsub regular soles) 0,
                descuentoSoles := soles,
                descuentoPct := (if regular \<noteq> 0 then dmul (ddiv soles regular) 100 else 0),
                diasVigencia := clamp (math_round (num_or (diasVigencia draft) 0)) 1 30,
                fechaCaducidad := today + \<lfloor>clamp (math_round (num_or (diasVigencia draft) 0)) 1 30\<rfloor>,
                separacion := max (separacion draft) 0,
                inicial := max (num_or (inicial draft) 0) 6000,
                meses := clamp (math_round (num_or (meses draft) 1)) 1 36 \<rparr>)"
  by (simp add: recalcProforma_def Let_def)

lemma recalc_pct:
  "recalcProforma (Some Pct) today draft =
     (let regular = max (precioRegular draft) 0;
          pct = clamp (max (descuentoPct draft) 0) 0 100;
          soles = dmul (ddiv pct 100) regular
      in draft\<lparr> precioRegular := regular,
                precioPromocional := max (dsub regular soles) 0,
                descuentoSoles := soles,
                descuentoPct := pct,
                diasVigencia := clamp (math_round (num_or (diasVigencia draft) 0)) 1 30,
                fechaCaducidad := today + \<lfloor>clamp (math_round (num_or (diasVigencia draft) 0)) 1 30\<rfloor>,
                separacion := max (separacion draft) 0,
                inicial := max (num_or (inicial draft) 0) 6000,
                meses := clamp (math_round (num_or (meses draft) 1)) 1 36 \<rparr>)"
  by (simp add: recalcProforma_def Let_def)

lemma recalc_promo:
  "e \<noteq> Some Soles \<Longrightarrow> e \<noteq> Some Pct \<Longrightarrow> recalcProforma e today draft =
     (let regular = max (precioRegular draft) 0;
          promo = clamp (max (precioPromocional draft) 0) 0 regular;
          soles = max (dsub regular promo) 0
      in draft\<lparr> precioRegular := regular,
                precioPromocional := promo,
                descuentoSoles := soles,
                descuentoPct := (if regular \<noteq> 0 then dmul (ddiv soles regular) 100 else 0),
                diasVigencia := clamp (math_round (num_or (diasVigencia draft) 0)) 1 30,
                fechaCaducidad := today + \<lfloor>clamp (math_round (num_or (diasVigencia draft) 0)) 1 30\<rfloor>,
                separacion := max (separacion draft) 0,
                inicial := max (num_or (inicial draft) 0) 6000,
                meses := clamp (math_round (num_or (meses draft) 1)) 1 36 \<rparr>)"
  by (simp add: recalcProforma_def Let_def)

lemma reconciledI:
  assumes "0 \<le> descuentoSoles r" "descuentoSoles r \<le> precioRegular r"
      and "0 \<le> descuentoPct r" "descuentoPct r \<le> 100"
      and "0 \<le> precioPromocional r" "precioPromocional r \<le> precioRegular r"
      and "if e = Some Soles \<or> e = Some Pct
           then precioPromocional r = dsub (precioRegular r) (descuentoSoles r)
           else descuentoSoles r = dsub (precioRegular r) (precioPromocional r)"
      and "\<bar>precioPromocional r - (precioRegular r - descuentoSoles r)\<bar>
             \<le> precioRegular r / 2 ^ 53 + 1 / 2 ^ 1075"
  shows "reconciled e r"
  unfolding reconciled_def using assms by blast

lemma inv_soles:
  assumes "is_double (precioRegular draft)"
  shows "reconciled (Some Soles) (recalcProforma (Some Soles) today draft)"
proof -
  let ?regular = "max (precioRegular draft) 0"
  let ?soles = "clamp (max (descuentoSoles draft) 0) 0 ?regular"
  let ?r = "recalcProforma (Some Soles) today draft"
  have rd: "double_round ?regular = ?regular" by (rule is_double_max0 [OF assms])
  have b: "0 \<le> ?soles" "?soles \<le> ?regular" by (simp_all add: clamp_def)
  note s = dsub_bounds [OF rd b]
  note p = pct_of_bounds [OF b]
  have f: "precioRegular ?r = ?regular" "descuentoSoles ?r = ?soles"
    "precioPromocional ?r = dsub ?regular ?soles"
    "descuentoPct ?r = (if ?regular \<noteq> 0 then dmul (ddiv ?soles ?regular) 100 else 0)"
    by (simp_all only: recalc_soles Let_def s(3)) simp_all
  show ?thesis
  proof (rule reconciledI)
    show "0 \<le> descuentoSoles ?r" "descuentoSoles ?r \<le> precioRegular ?r"
      by (simp_all only: f b)
    show "0 \<le> descuentoPct ?r" "descuentoPct ?r \<le> 100"
      by (simp_all only: f p)
    show "0 \<le> precioPromocional ?r" "precioPromocional ?r \<le> precioRegular ?r"
      by (simp_all only: f s)
    show "if Some Soles = Some Soles \<or> Some Soles = Some Pct
          then precioPromocional ?r = dsub (precioRegular ?r) (descuentoSoles ?r)
          else descuentoSoles ?r = dsub (precioRegular ?r) (precioPromocional ?r)"
      by (simp add: f)
    show "\<bar>precioPromocional ?r - (precioRegular ?r - descuentoSoles ?r)\<bar>
             \<le> precioRegular ?r / 2 ^ 53 + 1 / 2 ^ 1075"
      by (simp only: f s(4))
  qed
qed

lemma inv_pct:
  assumes "is_double (precioRegular draft)"
  shows "reconciled (Some Pct) (recalcProforma (Some Pct) today draft)"
proof -
  let ?regular = "max (precioRegular draft) 0"
  let ?pct = "clamp (max (descuentoPct draft) 0) 0 100"
  let ?soles = "dmul (ddiv ?pct 100) ?regular"
  let ?r = "recalcProforma (Some Pct) today draft"
  have rd: "double_round ?regular = ?regular" by (rule is_double_max0 [OF assms])
  have r0: "0 \<le> ?regular" by simp
  have p: "0 \<le> ?pct" "?pct \<le> 100" by (simp_all add: clamp_def)
  note b = share_bounds [OF rd r0 p]
  note s = dsub_bounds [OF rd b]
  have f: "precioRegular ?r = ?regular" "descuentoSoles ?r = ?soles"
    "precioPromocional ?r = dsub ?regular ?soles" "descuentoPct ?r = ?pct"
    by (simp_all only: recalc_pct Let_def s(3)) simp_all
  show ?thesis
  proof (rule reconciledI)
    show "0 \<le> descuentoSoles ?r" "descuentoSoles ?r \<le> precioRegular ?r"
      by (simp_all only: f b)
    show "0 \<le> descuentoPct ?r" "descuentoPct ?r \<le> 100"
      by (simp_all only: f p)
    show "0 \<le> precioPromocional ?r" "precioPromocional ?r \<le> precioRegular ?r"
      by (simp_all only: f s)
    show "if Some Pct = Some Soles \<or> Some Pct = Some Pct
          then precioPromocional ?r = dsub (precioRegular ?r) (descuentoSoles ?r)
          else descuentoSoles ?r = dsub (precioRegular ?r) (precioPromocional ?r)"
      by (simp add: f)
    show "\<bar>precioPromocional ?r - (precioRegular ?r - descuentoSoles ?r)\<bar>
             \<le> precioRegular ?r / 2 ^ 53 + 1 / 2 ^ 1075"
      by (simp only: f s(4))
  qed
qed

lemma inv_promo:
  assumes "is_double (precioRegular draft)" "e \<noteq> Some Soles" "e \<noteq> Some Pct"
  shows "reconciled e (recalcProforma e today draft)"
proof -
  let ?regular = "max (precioRegular draft) 0"
  let ?promo = "clamp (max (precioPromocional draft) 0) 0 ?regular"
  let ?soles = "dsub ?regular ?promo"
  let ?r = "recalcProforma e today draft"
  have rd: "double_round ?regular = ?regular" by (rule is_double_max0 [OF assms(1)])
  have b: "0 \<le> ?promo" "?promo \<le> ?regular" by (simp_all add: clamp_def)
  note s = dsub_bounds [OF rd b]
  note p = pct_of_bounds [OF s(1,2)]
  have f: "precioRegular ?r = ?regular" "descuentoSoles ?r = ?soles"
    "precioPromocional ?r = ?promo"
    "descuentoPct ?r = (if ?regular \<noteq> 0 then dmul (ddiv ?soles ?regular) 100 else 0)"
    by (simp_all only: recalc_promo [OF assms(2,3)] Let_def s(3)) simp_all
  have "?promo - (?regular - ?soles) = ?soles - (?regular - ?promo)" by simp
  with s(4) have t: "\<bar>?promo - (?regular - ?soles)\<bar> \<le> ?regular / 2 ^ 53 + 1 / 2 ^ 1075"
    by (simp only:)
  show ?thesis
  proof (rule reconciledI)
    show "0 \<le> descuentoSoles ?r" "descuentoSoles ?r \<le> precioRegular ?r"
      by (simp_all only: f s)
    show "0 \<le> descuentoPct ?r" "descuentoPct ?r \<le> 100"
      by (simp_all only: f p)
    show "0 \<le> precioPromocional ?r" "precioPromocional ?r \<le> precioRegular ?r"
      by (simp_all only: f b)
    show "if e = Some Soles \<or> e = Some Pct
          then precioPromocional ?r = dsub (precioRegular ?r) (descuentoSoles ?r)
          else descuentoSoles ?r = dsub (precioRegular ?r) (precioPromocional ?r)"
      using assms(2,3) by (simp add: f)
    show "\<bar>precioPromocional ?r - (precioRegular ?r - descuentoSoles ?r)\<bar>
             \<le> precioRegular ?r / 2 ^ 53 + 1 / 2 ^ 1075"
      by (simp only: f t)
  qed
qed

lemma recalc_reconciled:
  assumes "is_double (precioRegular draft)"
  shows "reconciled e (recalcProforma e today draft)"
proof (cases "e = Some Soles")
  case True
  then show ?thesis by (simp add: inv_soles [OF assms])
next
  case False
  then show ?thesis by (cases "e = Some Pct") (simp_all add: inv_pct [OF assms] inv_promo [OF assms])
qed

lemma half_tolerance:
  assumes "is_double (precioRegular draft)" "0 \<le> precioRegular draft"
  shows "precioRegular (recalcProforma (Some Pct) today (draft\<lparr> descuentoPct := 50 \<rparr>))
           = precioRegular draft"
    and "descuentoPct (recalcProforma (Some Pct) today (draft\<lparr> descuentoPct := 50 \<rparr>)) = 50"
    and "\<bar>descuentoSoles (recalcProforma (Some Pct) today (draft\<lparr> descuentoPct := 50 \<rparr>))
            - precioRegular draft * 0.5\<bar> \<le> precioRegular draft / 2 ^ 52 + 1 / 2 ^ 1074"
    and "\<bar>precioPromocional (recalcProforma (Some Pct) today (draft\<lparr> descuentoPct := 50 \<rparr>))
            - precioRegular draft * 0.5\<bar> \<le> precioRegular draft / 2 ^ 52 + 1 / 2 ^ 1074"
proof -
  let ?pr = "precioRegular draft"
  define u where "u = ?pr / 2 ^ 54"
  define v where "v = (1::real) / 2 ^ 1075"
  let ?r = "recalcProforma (Some Pct) today (draft\<lparr> descuentoPct := 50 \<rparr>)"
  let ?soles = "double_round (?pr / 2)"
  from assms have pr0: "0 \<le> ?pr" and rd: "double_round ?pr = ?pr"
    by (simp_all add: is_double_def)
  have u0: "0 \<le> u" using pr0 by (simp add: u_def)
  have v0: "0 \<le> v" by (simp add: v_def)
  have e1: "?pr / 2 / 2 ^ 53 = u" by (simp add: u_def)
  have e2: "?pr / 2 ^ 53 = 2 * u" by (simp add: u_def)
  have e3: "?pr / 2 ^ 52 + 1 / 2 ^ 1074 = 4 * u + 2 * v" by (simp add: u_def v_def)
  have h0: "0 \<le> ?pr / 2" using pr0 by simp
  from double_round_tolerance [OF h0] have t1: "\<bar>?soles - ?pr / 2\<bar> \<le> u + v"
    by (simp only: e1 v_def)
  have s0: "0 \<le> ?soles" by (rule double_round_nonneg [OF h0])
  have "?pr / 2 \<le> ?pr" using pr0 by simp
  from double_round_mono [OF h0 this] have s1: "?soles \<le> ?pr" by (simp only: rd)
  note d = dsub_bounds [OF rd s0 s1]
  from d(4) have t2: "\<bar>dsub ?pr ?soles - (?pr - ?soles)\<bar> \<le> 2 * u + v"
    by (simp only: e2 v_def)
  have cl: "clamp (max 50 0) 0 100 = 50" "clamp 50 0 100 = 50" by (simp_all add: clamp_def)
  have q: "ddiv 50 100 = 1 / 2" by (simp add: ddiv_def double_round_values)
  have m: "max ?pr 0 = ?pr" using pr0 by simp
  have sl: "dmul (1 / 2) ?pr = ?soles" by (simp add: dmul_def)
  have g: "?r = draft\<lparr> precioRegular := ?pr,
                precioPromocional := dsub ?pr ?soles,
                descuentoSoles := ?soles,
                descuentoPct := 50,
                diasVigencia := clamp (math_round (num_or (diasVigencia draft) 0)) 1 30,
                fechaCaducidad := today + \<lfloor>clamp (math_round (num_or (diasVigencia draft) 0)) 1 30\<rfloor>,
                separacion := max (separacion draft) 0,
                inicial := max (num_or (inicial draft) 0) 6000,
                meses := clamp (math_round (num_or (meses draft) 1)) 1 36 \<rparr>"
    unfolding recalc_pct Let_def by (simp add: cl q m sl d(3))
  have f: "precioRegular ?r = ?pr" "descuentoPct ?r = 50" "descuentoSoles ?r = ?soles"
    "precioPromocional ?r = dsub ?pr ?soles"
    unfolding g by simp_all
  show "precioRegular ?r = precioRegular draft" by (rule f(1))
  show "descuentoPct ?r = 50" by (rule f(2))
  have "\<bar>?soles - ?pr * 0.5\<bar> \<le> 4 * u + 2 * v" using t1 u0 v0 by simp
  then show "\<bar>descuentoSoles ?r - precioRegular draft * 0.5\<bar>
            \<le> precioRegular draft / 2 ^ 52 + 1 / 2 ^ 1074"
    by (simp only: f e3)
  have "\<bar>dsub ?pr ?soles - ?pr * 0.5\<bar> \<le> 4 * u + 2 * v" using t1 t2 u0 v0 by simp
  then show "\<bar>precioPromocional ?r - precioRegular draft * 0.5\<bar>
            \<le> precioRegular draft / 2 ^ 52 + 1 / 2 ^ 1074"
    by (simp only: f e3)
qed

lemmas double_eval = double_round_def ulp_def exponent_def rne_def floor_log2.simps
  dsub_def dmul_def ddiv_def

text \<open>
  Claim C5 (discount reconciliation invariant), as amended. After every \<open>recalcProforma\<close>
  of a draft whose regular price is a double, whichever field was edited last,
  \<open>0 \<le> descuentoSoles \<le> precioRegular\<close>, \<open>0 \<le> descuentoPct \<le> 100\<close> and
  \<open>0 \<le> precioPromocional \<le> precioRegular\<close> hold exactly. \<open>precioPromocional\<close> is the
  double \<open>precioRegular - descuentoSoles\<close> when the amount or the percentage was edited
  last; otherwise \<open>descuentoSoles\<close> is the double \<open>precioRegular - precioPromocional\<close>;
  in every case \<open>precioPromocional = precioRegular - descuentoSoles\<close> holds within
  \<open>precioRegular / 2^53 + 2^-1075\<close>. When \<open>precioRegular \<ge> 0\<close>, setting
  \<open>descuentoPct = 50\<close> gives \<open>precioPromocional\<close> and \<open>descuentoSoles\<close> equal to
  \<open>precioRegular * 0.5\<close> within \<open>precioRegular / 2^52 + 2^-1074\<close>.
\<close>
theorem recalcProforma_invariant:
  assumes "is_double (precioRegular draft)"
  shows "(let r = recalcProforma lastPriceEdited today draft
          in 0 \<le> descuentoSoles r \<and> descuentoSoles r \<le> precioRegular r
           \<and> 0 \<le> descuentoPct r \<and> descuentoPct r \<le> 100
           \<and> 0 \<le> precioPromocional r \<and> precioPromocional r \<le> precioRegular r
           \<and> (if lastPriceEdited = Some Soles \<or> lastPriceEdited = Some Pct
               then precioPromocional r = dsub (precioRegular r) (descuentoSoles r)
               else descuentoSoles r = dsub (precioRegular r) (precioPromocional r))
           \<and> \<bar>precioPromocional r - (precioRegular r - descuentoSoles r)\<bar>
               \<le> precioRegular r / 2 ^ 53 + 1 / 2 ^ 1075)
       \<and> (0 \<le> precioRegular draft \<longrightarrow>
           (let r = recalcProforma (Some Pct) today (draft\<lparr> descuentoPct := 50 \<rparr>)
            in precioRegular r = precioRegular draft
             \<and> \<bar>precioPromocional r - precioRegular draft * 0.5\<bar>
                 \<le> precioRegular draft / 2 ^ 52 + 1 / 2 ^ 1074
             \<and> \<bar>descuentoSoles r - precioRegular draft * 0.5\<bar>
                 \<le> precioRegular draft / 2 ^ 52 + 1 / 2 ^ 1074))
       \<and> onChange_descuentoPct today 50 draft =
           recalcProforma (Some Pct) today (draft\<lparr> descuentoPct := 50 \<rparr>)"
proof -
  have a: "reconciled lastPriceEdited (recalcProforma lastPriceEdited today draft)"
    by (rule recalc_reconciled [OF assms])
  have b: "0 \<le> precioRegular draft \<longrightarrow>
           (let r = recalcProforma (Some Pct) today (draft\<lparr> descuentoPct := 50 \<rparr>)
            in precioRegular r = precioRegular draft
             \<and> \<bar>precioPromocional r - precioRegular draft * 0.5\<bar>
                 \<le> precioRegular draft / 2 ^ 52 + 1 / 2 ^ 1074
             \<and> \<bar>descuentoSoles r - precioRegular draft * 0.5\<bar>
                 \<le> precioRegular draft / 2 ^ 52 + 1 / 2 ^ 1074)"
    unfolding Let_def using half_tolerance [OF assms, of today] by blast
  have c: "onChange_descuentoPct today 50 draft =
         recalcProforma (Some Pct) today (draft\<lparr> descuentoPct := 50 \<rparr>)"
    by (simp add: onChange_descuentoPct_def updateProforma_def)
  from a have a': "let r = recalcProforma lastPriceEdited today draft
          in 0 \<le> descuentoSoles r \<and> descuentoSoles r \<le> precioRegular r
           \<and> 0 \<le> descuentoPct r \<and> descuentoPct r \<le> 100
           \<and> 0 \<le> precioPromocional r \<and> precioPromocional r \<le> precioRegular r
           \<and> (if lastPriceEdited = Some Soles \<or> lastPriceEdited = Some Pct
               then precioPromocional r = dsub (precioRegular r) (descuentoSoles r)
               else descuentoSoles r = dsub (precioRegular r) (precioPromocional r))
           \<and> \<bar>precioPromocional r - (precioRegular r - descuentoSoles r)\<bar>
               \<le> precioRegular r / 2 ^ 53 + 1 / 2 ^ 1075"
    unfolding reconciled_def Let_def .
  from a' b c show ?thesis by blast
qed

lemma is_double_45000: "is_double 45000"
  by (simp add: is_double_def double_round_values)

theorem recalcProforma_invariant_witness:
  "is_double (precioRegular fresh_proforma) \<and> (0::real) \<le> precioRegular fresh_proforma
   \<and> descuentoPct (recalcProforma (Some Soles) 0 fresh_proforma) \<le> 100
   \<and> precioPromocional (recalcProforma (Some Soles) 0 fresh_proforma)
       = dsub (precioRegular (recalcProforma (Some Soles) 0 fresh_proforma))
              (descuentoSoles (recalcProforma (Some Soles) 0 fresh_proforma))
   \<and> \<bar>precioPromocional (recalcProforma (Some Pct) 0 (fresh_proforma\<lparr> descuentoPct := 50 \<rparr>))
        - 22500\<bar> \<le> 45000 / 2 ^ 52 + 1 / 2 ^ 1074"
proof -
  have h: "is_double (precioRegular fresh_proforma)"
    by (simp add: fresh_proforma_def is_double_45000)
  have p: "precioRegular fresh_proforma = 45000" by (simp add: fresh_proforma_def)
  from recalcProforma_invariant [OF h, of "Some Soles" 0] p h
  show ?thesis by (simp add: Let_def)
qed

theorem recalcProforma_invariant_counterexample:
  "is_double 45000
   \<and> double_round 12345.67 = 6787103858842665 / 549755813888
   \<and> precioRegular (onChange_precioPromocional 0 (double_round 12345.67) fresh_proforma) = 45000
   \<and> precioPromocional (onChange_precioPromocional 0 (double_round 12345.67) fresh_proforma)
       = 6787103858842665 / 549755813888
   \<and> descuentoSoles (onChange_precioPromocional 0 (double_round 12345.67) fresh_proforma)
       = 2243988470764667 / 68719476736
   \<and> precioRegular (onChange_precioPromocional 0 (double_round 12345.67) fresh_proforma)
       - descuentoSoles (onChange_precioPromocional 0 (double_round 12345.67) fresh_proforma)
       = 848387982355333 / 68719476736
   \<and> precioPromocional (onChange_precioPromocional 0 (double_round 12345.67) fresh_proforma)
       \<noteq> precioRegular (onChange_precioPromocional 0 (double_round 12345.67) fresh_proforma)
         - descuentoSoles (onChange_precioPromocional 0 (double_round 12345.67) fresh_proforma)
   \<and> \<not> proforma_inv (onChange_precioPromocional 0 (double_round 12345.67) fresh_proforma)"
proof -
  let ?r = "onChange_precioPromocional 0 (double_round 12345.67) fresh_proforma"
  have d: "double_round 12345.67 = 6787103858842665 / 549755813888"
    by (simp add: double_eval)
  have s: "dsub 45000 (6787103858842665 / 549755813888) = 2243988470764667 / 68719476736"
    by (simp add: double_eval)
  have f: "precioRegular ?r = 45000"
    "precioPromocional ?r = 6787103858842665 / 549755813888"
    "descuentoSoles ?r = 2243988470764667 / 68719476736"
    unfolding d onChange_precioPromocional_def updateProforma_def
    by (simp_all add: recalc_promo Let_def fresh_proforma_def clamp_def s)
  have e: "precioRegular ?r - descuentoSoles ?r = 848387982355333 / 68719476736"
    unfolding f by simp
  have n: "precioPromocional ?r \<noteq> precioRegular ?r - descuentoSoles ?r"
    unfolding e f(2) by simp
  from n have i: "\<not> proforma_inv ?r" by (simp add: proforma_inv_def)
  from is_double_45000 d f e n i show ?thesis by blast
qed

lemma recalc_inicial:
  "inicial (recalcProforma e today draft) = max (num_or (inicial draft) 0) 6000"
  by (simp add: recalcProforma_def Let_def split: prod.splits)

text \<open>
  Claim C9 (down-payment floor), as amended. Every submitted down payment \<open>d < 6000\<close> is
  stored as exactly 6000 by the quote input, by the proforma input and by
  \<open>recalcProforma\<close>, and is never rejected; the proforma finances
  \<open>precioPromocional - separacion - 6000\<close>. The standard quote then takes
  \<open>min(6000, precio)\<close> as its down payment: exactly 6000 when \<open>precio \<ge> 6000\<close>, and the
  amount financed is \<open>max(precio - 6000, 0)\<close> for every price.
\<close>

theorem down_payment_floor:
  "d < 6000 \<longrightarrow>
     inicialMonto (onChange_inicialMonto d quote) = 6000
   \<and> inicial (onChange_inicial today d current) = 6000
   \<and> inicial (recalcProforma lastPriceEdited today (draft\<lparr> inicial := d \<rparr>)) = 6000
   \<and> precioFinanciarPromo (onChange_inicial today d current) =
       max (precioPromocional (onChange_inicial today d current)
            - separacion (onChange_inicial today d current) - 6000) 0
   \<and> montoInicial (onChange_inicialMonto d quote) = min 6000 (precio quote)
   \<and> (6000 \<le> precio quote \<longrightarrow> montoInicial (onChange_inicialMonto d quote) = 6000)
   \<and> financiado (onChange_inicialMonto d quote) = max (precio quote - 6000) 0"
proof
  assume d: "d < 6000"
  have a: "inicialMonto (onChange_inicialMonto d quote) = 6000"
    using d by (simp add: onChange_inicialMonto_def)
  have b: "inicial (onChange_inicial today d current) = 6000"
    using d by (simp add: onChange_inicial_def updateProforma_def recalc_inicial num_or_def)
  have c: "inicial (recalcProforma lastPriceEdited today (draft\<lparr> inicial := d \<rparr>)) = 6000"
    using d by (simp add: recalc_inicial num_or_def)
  have e: "precioFinanciarPromo (onChange_inicial today d current) =
       max (precioPromocional (onChange_inicial today d current)
            - separacion (onChange_inicial today d current) - 6000) 0"
    using b by (simp add: precioFinanciarPromo_def)
  have f: "montoInicial (onChange_inicialMonto d quote) = min 6000 (precio quote)"
    using d by (simp add: montoInicial_def onChange_inicialMonto_def)
  have g: "financiado (onChange_inicialMonto d quote) = max (precio quote - 6000) 0"
    using f by (simp add: financiado_def onChange_inicialMonto_def)
  from f have h: "6000 \<le> precio quote \<longrightarrow> montoInicial (onChange_inicialMonto d quote) = 6000"
    by simp
  from a b c e f g h
  show "inicialMonto (onChange_inicialMonto d quote) = 6000
   \<and> inicial (onChange_inicial today d current) = 6000
   \<and> inicial (recalcProforma lastPriceEdited today (draft\<lparr> inicial := d \<rparr>)) = 6000
   \<and> precioFinanciarPromo (onChange_inicial today d current) =
       max (precioPromocional (onChange_inicial today d current)
            - separacion (onChange_inicial today d current) - 6000) 0
   \<and> montoInicial (onChange_inicialMonto d quote) = min 6000 (precio quote)
   \<and> (6000 \<le> precio quote \<longrightarrow> montoInicial (onChange_inicialMonto d quote) = 6000)
   \<and> financiado (onChange_inicialMonto d quote) = max (precio quote - 6000) 0"
    by blast
qed

theorem down_payment_floor_witness:
  "(1000::real) < 6000
   \<and> inicialMonto (onChange_inicialMonto 1000
        \<lparr> precio = 45000, inicialMonto = 10000, cuotas = 24, interesAnual = 0 \<rparr>) = 6000
   \<and> montoInicial (onChange_inicialMonto 1000
        \<lparr> precio = 45000, inicialMonto = 10000, cuotas = 24, interesAnual = 0 \<rparr>) = 6000
   \<and> financiado (onChange_inicialMonto 1000
        \<lparr> precio = 45000, inicialMonto = 10000, cuotas = 24, interesAnual = 0 \<rparr>) = 39000"
  using down_payment_floor [of 1000
        "\<lparr> precio = 45000, inicialMonto = 10000, cuotas = 24, interesAnual = 0 \<rparr>"]
  by simp

theorem down_payment_floor_counterexample:
  "(1000::real) < 6000
   \<and> inicialMonto (onChange_inicialMonto 1000 defaultQuote) = 6000
   \<and> montoInicial (onChange_inicialMonto 1000 defaultQuote) = 0
   \<and> montoInicial (onChange_inicialMonto 1000 defaultQuote) \<noteq> 6000"
  by (simp add: onChange_inicialMonto_def defaultQuote_def montoInicial_def)

section \<open>Identifiers\<close>

lemma show_nat_small: "n < 10 \<Longrightarrow> show_nat n = [digit_char n]"
  by (simp add: show_nat.simps [of n])

lemma show_nat_length: "10 \<le> n \<Longrightarrow> 2 \<le> length (show_nat n)"
proof -
  assume "10 \<le> n"
  then have "show_nat n = show_nat (n div 10) @ [digit_char (n mod 10)]"
    by (simp add: show_nat.simps [of n])
  moreover have "show_nat (n div 10) \<noteq> []" using show_nat_digits [of "n div 10"] by simp
  ultimately show ?thesis by (cases "show_nat (n div 10)") simp_all
qed

lemma padStart_length: "n \<le> length (padStart n s)"
  by (simp add: padStart_def)

lemma padStart_long: "n \<le> length s \<Longrightarrow> padStart n s = s"
  by (simp add: padStart_def)

lemma service_toLoteId_case:
  assumes "toUpperCase m = toUpperCase m'"
  shows "service_toLoteId m k = service_toLoteId m' k"
proof -
  have "toUpperCase (trim m) = trim (toUpperCase m)" by (simp add: trim_toUpperCase)
  also have "\<dots> = trim (toUpperCase m')" using assms by simp
  also have "\<dots> = toUpperCase (trim m')" by (simp add: trim_toUpperCase)
  finally show ?thesis by (simp add: service_toLoteId_def)
qed

text \<open>
  Claim C2 (identifier determinism), as amended. The exported \<open>toLoteId\<close> of
  lib/lotesService.mjs trims and uppercases \<open>mz\<close>, pads the lot number with zeros to
  width 2 and returns \<open>"{MZ}-{LL}"\<close>: it gives \<open>"A-07"\<close> for \<open>("a", 7)\<close> and \<open>"B-12"\<close> for
  \<open>("B", 12)\<close>, and block names that differ only in case or surrounding white space give
  the same id. The copies in server.mjs and App.tsx join \<open>mz\<close> as it is passed; their
  callers trim and uppercase it first, and on such an argument the copies agree with the
  exported function.
\<close>
theorem toLoteId_deterministic:
  "service_toLoteId m k = toUpperCase (trim m) @ ''-'' @ padStart 2 (show_int k)
   \<and> toLoteId (toUpperCase (trim m)) k = service_toLoteId m k
   \<and> (toUpperCase m = toUpperCase m' \<longrightarrow> service_toLoteId m k = service_toLoteId m' k)
   \<and> service_toLoteId (trim m) k = service_toLoteId m k
   \<and> 2 \<le> length (padStart 2 (show_int k))
   \<and> (0 \<le> k \<and> k < 10 \<longrightarrow> padStart 2 (show_int k) = [CHR ''0'', digit_char (nat k)])
   \<and> (10 \<le> k \<longrightarrow> padStart 2 (show_int k) = show_int k)
   \<and> service_toLoteId ''a'' 7 = ''A-07'' \<and> service_toLoteId ''B'' 12 = ''B-12''
   \<and> toLoteId ''A'' 7 = ''A-07'' \<and> toLoteId ''B'' 12 = ''B-12''"
proof -
  have a: "service_toLoteId m k = toUpperCase (trim m) @ ''-'' @ padStart 2 (show_int k)"
    by (simp add: service_toLoteId_def)
  have b: "toLoteId (toUpperCase (trim m)) k = service_toLoteId m k"
    by (simp add: service_toLoteId_def toLoteId_def)
  have c: "toUpperCase m = toUpperCase m' \<longrightarrow> service_toLoteId m k = service_toLoteId m' k"
    using service_toLoteId_case by blast
  have d: "service_toLoteId (trim m) k = service_toLoteId m k"
    by (simp add: service_toLoteId_def)
  have e: "2 \<le> length (padStart 2 (show_int k))" by (rule padStart_length)
  have f: "0 \<le> k \<and> k < 10 \<longrightarrow> padStart 2 (show_int k) = [CHR ''0'', digit_char (nat k)]"
  proof
    assume "0 \<le> k \<and> k < 10"
    then have "show_int k = show_nat (nat k)" and "nat k < 10" by (simp add: show_int_def, linarith)
    then show "padStart 2 (show_int k) = [CHR ''0'', digit_char (nat k)]"
      by (simp add: show_nat_small padStart_def)
  qed
  have g: "10 \<le> k \<longrightarrow> padStart 2 (show_int k) = show_int k"
  proof
    assume "10 \<le> k"
    then have "show_int k = show_nat (nat k)" and "10 \<le> nat k"
      by (simp_all add: show_int_def)
    then show "padStart 2 (show_int k) = show_int k"
      using show_nat_length [of "nat k"] by (simp add: padStart_long)
  qed
  have h: "service_toLoteId ''a'' 7 = ''A-07''" "service_toLoteId ''B'' 12 = ''B-12''"
    "toLoteId ''A'' 7 = ''A-07''" "toLoteId ''B'' 12 = ''B-12''"
    by (simp_all add: service_toLoteId_def toLoteId_def str_eval)
  from a b c d e f g h show ?thesis by blast
qed

theorem toLoteId_deterministic_witness:
  "toUpperCase ''b'' = toUpperCase ''B'' \<and> service_toLoteId ''b'' 3 = service_toLoteId ''B'' 3
   \<and> (0::int) \<le> 3 \<and> (3::int) < 10 \<and> padStart 2 (show_int 3) = ''03''
   \<and> (10::int) \<le> 120 \<and> padStart 2 (show_int 120) = ''120''"
proof -
  have u: "toUpperCase ''b'' = toUpperCase ''B''" by (simp add: str_eval)
  have "service_toLoteId ''b'' 3 = service_toLoteId ''B'' 3"
    using toLoteId_deterministic [of "''b''" 3 "''B''"] u by blast
  moreover have "padStart 2 (show_int 3) = ''03''"
    using toLoteId_deterministic [of "''b''" 3 "''B''"] by (simp add: digit_char_def)
  moreover have "padStart 2 (show_int 120) = ''120''"
    using toLoteId_deterministic [of "''b''" 120 "''B''"] by (simp add: str_eval)
  ultimately show ?thesis using u by simp
qed

theorem toLoteId_counterexample:
  "toLoteId ''a'' 7 = ''a-07'' \<and> toLoteId ''a'' 7 \<noteq> ''A-07'' \<and> toLoteId ''a'' 7 \<noteq> toLoteId ''A'' 7
   \<and> toLoteId '' A'' 7 = '' A-07''"
  by (simp add: toLoteId_def str_eval)

section \<open>Source adapter and HTTP facade\<close>

lemma normalizeText_unparse: "normalizeText (cell (unparse_cell c)) = normalizeText (cell c)"
  by (cases c) (simp_all add: normalizeText_def unparse_cell_def js_coalesce_def)

lemma cleanNumber_unparse: "cleanNumber (cell (unparse_cell c)) = cleanNumber (cell c)"
  by (cases c) (simp_all add: cleanNumber_def unparse_cell_def)

lemma normalizeStatus_unparse: "normalizeStatus (cell (unparse_cell c)) = normalizeStatus (cell c)"
  by (cases c) (simp_all add: normalizeStatus_def unparse_cell_def js_or_def)

lemma unparse_row_sel:
  "MZ (unparse_row r) = unparse_cell (MZ r)" "LOTE (unparse_row r) = unparse_cell (LOTE r)"
  "AREA (unparse_row r) = unparse_cell (AREA r)" "PRECIO (unparse_row r) = unparse_cell (PRECIO r)"
  "CONDICION (unparse_row r) = unparse_cell (CONDICION r)"
  "ASESOR (unparse_row r) = unparse_cell (ASESOR r)"
  "CLIENTE (unparse_row r) = unparse_cell (CLIENTE r)"
  "COMENTARIO (unparse_row r) = unparse_cell (COMENTARIO r)"
  "ULTIMA_MODIFICACION (unparse_row r) = unparse_cell (ULTIMA_MODIFICACION r)"
  by (simp_all add: unparse_row_def)

lemma mapRowToLote_unparse: "mapRowToLote (unparse_row r) = mapRowToLote r"
  by (simp only: mapRowToLote_def unparse_row_sel normalizeText_unparse cleanNumber_unparse
      normalizeStatus_unparse)

lemma list_lotes_unparse: "list_lotes (map unparse_row rows) = list_lotes rows"
  by (simp add: list_lotes_def comp_def mapRowToLote_unparse)

lemma row_matches_iff:
  "row_matches L row \<longleftrightarrow> (\<exists>l. mapRowToLote row = Some l \<and> lote_id l = L)"
  by (auto simp add: row_matches_def mapRowToLote_def Let_def)

lemma findIndex_None: "findIndex P xs = None \<longleftrightarrow> (\<forall>x \<in> set xs. \<not> P x)"
  by (induction xs) auto

lemma findIndex_Some:
  "findIndex P xs = Some i \<Longrightarrow> i < length xs \<and> P (xs ! i) \<and> (\<forall>j < i. \<not> P (xs ! j))"
proof (induction xs arbitrary: i)
  case Nil
  then show ?case by simp
next
  case (Cons x xs)
  show ?case
  proof (cases "P x")
    case True
    with Cons.prems show ?thesis by simp
  next
    case False
    with Cons.prems obtain k where k: "findIndex P xs = Some k" "i = Suc k" by auto
    from Cons.IH [OF k(1)] False k(2) show ?thesis by (auto simp add: less_Suc_eq_0_disj)
  qed
qed

lemma list_lotes_set: "set (list_lotes rows) = {l. \<exists>r \<in> set rows. mapRowToLote r = Some l}"
  by (force simp add: list_lotes_def image_iff)

lemma absent_iff:
  "(\<forall>l \<in> set (list_lotes rows). lote_id l \<noteq> L) \<longleftrightarrow> findIndex (row_matches L) rows = None"
  by (auto simp add: findIndex_None row_matches_iff list_lotes_set)

lemma list_lotes_append: "list_lotes (xs @ ys) = list_lotes xs @ list_lotes ys"
  by (simp add: list_lotes_def)

lemma list_lotes_single: "mapRowToLote r = Some l \<Longrightarrow> list_lotes [r] = [l]"
  by (simp add: list_lotes_def)

lemma list_lotes_update:
  assumes "i < length rows" "mapRowToLote (rows ! i) = Some l0" "mapRowToLote r' = Some l'"
  shows "list_lotes (rows[i := r']) = (list_lotes rows)[length (list_lotes (take i rows)) := l']"
    and "length (list_lotes (take i rows)) < length (list_lotes rows)"
    and "list_lotes rows ! length (list_lotes (take i rows)) = l0"
proof -
  have r: "rows = take i rows @ [rows ! i] @ drop (Suc i) rows"
    using assms(1) by (simp add: id_take_nth_drop [symmetric])
  have u: "rows[i := r'] = take i rows @ [r'] @ drop (Suc i) rows"
    using assms(1) by (simp add: upd_conv_take_nth_drop)
  have l: "list_lotes rows = list_lotes (take i rows) @ [l0] @ list_lotes (drop (Suc i) rows)"
    by (subst r) (simp only: list_lotes_append list_lotes_single [OF assms(2)])
  have l': "list_lotes (rows[i := r']) = list_lotes (take i rows) @ [l'] @ list_lotes (drop (Suc i) rows)"
    by (subst u) (simp only: list_lotes_append list_lotes_single [OF assms(3)])
  show "list_lotes (rows[i := r']) = (list_lotes rows)[length (list_lotes (take i rows)) := l']"
    by (simp add: l l' list_update_append)
  show "length (list_lotes (take i rows)) < length (list_lotes rows)"
    by (simp add: l)
  show "list_lotes rows ! length (list_lotes (take i rows)) = l0"
    by (simp add: l nth_append)
qed

lemma update_row_sel:
  "MZ (update_row now p row) = MZ row" "LOTE (update_row now p row) = LOTE row"
  "AREA (update_row now p row) = AREA row"
  "PRECIO (update_row now p row) =
     (if pl_price p \<noteq> JUndefined
      then Some (if cleanNumber (pl_price p) = None then [] else formatReal (cleanNumber (pl_price p)))
      else PRECIO row)"
  "CONDICION (update_row now p row) =
     Some (normalizeStatus (js_coalesce (pl_estado p) (cell (CONDICION row))))"
  "ASESOR (update_row now p row) =
     Some (normalizeText (js_coalesce (pl_asesor p) (cell (ASESOR row))))"
  "CLIENTE (update_row now p row) =
     Some (normalizeText (js_coalesce (pl_cliente p) (cell (CLIENTE row))))"
  "COMENTARIO (update_row now p row) =
     Some (normalizeText (js_coalesce (pl_comentario p) (cell (COMENTARIO row))))"
  "ULTIMA_MODIFICACION (update_row now p row) = Some (toCurrentTimestamp now)"
  by (simp_all add: update_row_def Let_def)

lemma normalizeText_idem: "normalizeText (JStr (normalizeText v)) = normalizeText v"
  by (simp add: normalizeText_def js_coalesce_def)

lemma normalizeText_not_nullish: "\<not> nullish v \<Longrightarrow> normalizeText v = trim (js_String v)"
  by (simp add: normalizeText_def js_coalesce_def)

lemma stamp_text: "or_undefined (normalizeText (JStr (toCurrentTimestamp now))) = Some (toCurrentTimestamp now)"
  by (simp add: normalizeText_def js_coalesce_def toCurrentTimestamp_trim or_undefined_def
      toCurrentTimestamp_nonempty)

lemma text_field:
  "or_undefined (normalizeText (cell (Some (normalizeText (js_coalesce v (cell c)))))) =
     (if nullish v then or_undefined (normalizeText (cell c))
      else or_undefined (trim (js_String v)))"
proof (cases "nullish v")
  case True
  then show ?thesis by (simp add: normalizeText_idem js_coalesce_def)
next
  case False
  then have "normalizeText (js_coalesce v (cell c)) = trim (js_String v)"
    by (simp add: js_coalesce_def normalizeText_not_nullish)
  with False show ?thesis by (simp add: normalizeText_def js_coalesce_def)
qed

lemma status_field:
  "normalizeStatus (cell (Some (normalizeStatus (js_coalesce v (cell c))))) =
     (if nullish v then normalizeStatus (cell c) else normalizeStatus v)"
  by (simp add: normalizeStatus_idem js_coalesce_def)

lemma stamp_field:
  "or_undefined (normalizeText (cell (Some (toCurrentTimestamp now)))) = Some (toCurrentTimestamp now)"
  by (simp add: stamp_text)

lemma formatReal_Some: "formatReal (Some x) = toFixed2 x"
  by (simp add: formatReal_def)

lemma mapRowToLote_update:
  assumes "mapRowToLote row = Some l0"
  shows "mapRowToLote (update_row now p row) =
    Some (l0\<lparr>
      price := (if pl_price p = JUndefined then price l0
                else case cleanNumber (pl_price p) of
                       None \<Rightarrow> None
                     | Some x \<Rightarrow> cleanNumber (JStr (toFixed2 x))),
      condicion := (if nullish (pl_estado p) then condicion l0 else normalizeStatus (pl_estado p)),
      asesor := (if nullish (pl_asesor p) then asesor l0
                 else or_undefined (trim (js_String (pl_asesor p)))),
      cliente := (if nullish (pl_cliente p) then cliente l0
                  else or_undefined (trim (js_String (pl_cliente p)))),
      comentario := (if nullish (pl_comentario p) then comentario l0
                     else or_undefined (trim (js_String (pl_comentario p)))),
      ultimaModificacion := Some (toCurrentTimestamp now) \<rparr>)"
proof -
  let ?m = "toUpperCase (normalizeText (cell (MZ row)))"
  let ?k = "parseInt (normalizeText (cell (LOTE row)))"
  from assms have wf: "\<not> (?m = [] \<or> ?k = None)"
    by (auto simp add: mapRowToLote_def Let_def split: if_splits)
  from assms wf have l0: "l0 = \<lparr> lote_id = toLoteId ?m (the ?k), mz = ?m, lote = the ?k,
       areaM2 = cleanNumber (cell (AREA row)), price = cleanNumber (cell (PRECIO row)),
       condicion = normalizeStatus (cell (CONDICION row)),
       asesor = or_undefined (normalizeText (cell (ASESOR row))),
       cliente = or_undefined (normalizeText (cell (CLIENTE row))),
       comentario = or_undefined (normalizeText (cell (COMENTARIO row))),
       ultimaModificacion = or_undefined (normalizeText (cell (ULTIMA_MODIFICACION row))) \<rparr>"
    by (auto simp add: mapRowToLote_def Let_def split: if_splits)
  have pr: "cleanNumber (cell (PRECIO (update_row now p row))) =
      (if pl_price p = JUndefined then cleanNumber (cell (PRECIO row))
       else case cleanNumber (pl_price p) of None \<Rightarrow> None | Some x \<Rightarrow> cleanNumber (JStr (toFixed2 x)))"
    by (cases "cleanNumber (pl_price p)")
       (simp_all add: update_row_sel formatReal_Some, simp add: cleanNumber_def)
  have "mapRowToLote (update_row now p row) =
      Some \<lparr> lote_id = toLoteId ?m (the ?k), mz = ?m, lote = the ?k,
       areaM2 = cleanNumber (cell (AREA row)),
       price = cleanNumber (cell (PRECIO (update_row now p row))),
       condicion = normalizeStatus (cell (CONDICION (update_row now p row))),
       asesor = or_undefined (normalizeText (cell (ASESOR (update_row now p row)))),
       cliente = or_undefined (normalizeText (cell (CLIENTE (update_row now p row)))),
       comentario = or_undefined (normalizeText (cell (COMENTARIO (update_row now p row)))),
       ultimaModificacion = or_undefined (normalizeText (cell (ULTIMA_MODIFICACION (update_row now p row)))) \<rparr>"
    using wf by (simp add: mapRowToLote_def Let_def update_row_sel(1,2,3))
  also have "\<dots> = Some (l0\<lparr>
      price := (if pl_price p = JUndefined then price l0
                else case cleanNumber (pl_price p) of
                       None \<Rightarrow> None
                     | Some x \<Rightarrow> cleanNumber (JStr (toFixed2 x))),
      condicion := (if nullish (pl_estado p) then condicion l0 else normalizeStatus (pl_estado p)),
      asesor := (if nullish (pl_asesor p) then asesor l0
                 else or_undefined (trim (js_String (pl_asesor p)))),
      cliente := (if nullish (pl_cliente p) then cliente l0
                  else or_undefined (trim (js_String (pl_cliente p)))),
      comentario := (if nullish (pl_comentario p) then comentario l0
                     else or_undefined (trim (js_String (pl_comentario p)))),
      ultimaModificacion := Some (toCurrentTimestamp now) \<rparr>)"
    by (simp only: pr update_row_sel(5,6,7,8,9) text_field status_field stamp_field)
       (simp add: l0)
  finally show ?thesis .
qed

lemmas row_eval = mapRowToLote_def normalizeText_def js_coalesce_def normalizeStatus_def js_or_def
  ALLOWED_STATUS_def toLoteId_def or_undefined_def list_lotes_def row_matches_def

lemma scenario_row_lote: "mapRowToLote scenario_row = Some scenario_lote"
  by (simp add: scenario_row_def scenario_lote_def row_eval num_eval str_eval)

lemma scenario_bad_row_null: "mapRowToLote scenario_bad_row = None"
  by (simp add: scenario_bad_row_def row_eval num_eval str_eval)

lemma scenario_stamp: "toCurrentTimestamp scenario_t1 = ''02-nov-26 10:15:07''"
  "toCurrentTimestamp scenario_t2 = ''02-nov-26 10:15:07''"
  by (simp_all add: scenario_t1_def scenario_t2_def toCurrentTimestamp_def months_def slice_last2_def str_eval)

lemma normalizeText_cell: "normalizeText (cell c) = trim (cell_text c)"
  by (cases c) (simp_all add: normalizeText_def js_coalesce_def cell_text_def)

lemma mapRowToLote_None_iff: "mapRowToLote row = None \<longleftrightarrow> malformed_row row"
  by (simp add: mapRowToLote_def malformed_row_def normalizeText_cell Let_def)

lemma list_lotes_filter:
  "list_lotes rows = map (\<lambda>r. the (mapRowToLote r)) (filter (\<lambda>r. \<not> malformed_row r) rows)"
  by (induction rows) (auto simp add: list_lotes_def mapRowToLote_None_iff [symmetric])

lemma get_lotes_readable: "lotes_csv d = Some rows \<Longrightarrow> get_lotes d = Status200 (list_lotes rows)"
  by (simp add: get_lotes_def readCsvState_def)

lemma normalizeText_JStr: "normalizeText (JStr s) = trim s"
  by (simp add: normalizeText_def js_coalesce_def)

lemma put_lote_absent:
  assumes "lotes_csv d = Some rows"
      and "findIndex (row_matches (toUpperCase (trim id_param))) rows = None"
  shows "put_lote d now id_param p = (Status404, d)"
  using assms by (simp add: put_lote_def readCsvState_def normalizeText_JStr)

lemma put_lote_found:
  assumes "lotes_csv d = Some rows"
      and "findIndex (row_matches (toUpperCase (trim id_param))) rows = Some i"
  shows "put_lote d now id_param p =
     (Status200 (mapRowToLote (update_row now p (rows ! i))),
      d\<lparr> lotes_csv := Some (map unparse_row (rows[i := update_row now p (rows ! i)])),
         writes := Suc (writes d) \<rparr>)"
  using assms by (simp add: put_lote_def readCsvState_def normalizeText_JStr Let_def writeCsvState_def)

lemma present_findIndex:
  assumes "l \<in> set (list_lotes rows)"
  shows "\<exists>i l0. findIndex (row_matches (lote_id l)) rows = Some i
           \<and> i < length rows \<and> mapRowToLote (rows ! i) = Some l0 \<and> lote_id l0 = lote_id l"
proof -
  from assms have "\<not> (\<forall>l' \<in> set (list_lotes rows). lote_id l' \<noteq> lote_id l)" by blast
  then have "findIndex (row_matches (lote_id l)) rows \<noteq> None"
    using absent_iff [of rows "lote_id l"] by blast
  then obtain i where i: "findIndex (row_matches (lote_id l)) rows = Some i" by blast
  from findIndex_Some [OF i] have "i < length rows" and "row_matches (lote_id l) (rows ! i)"
    by simp_all
  with i show ?thesis by (auto simp add: row_matches_iff)
qed

lemma put_lote_list:
  assumes d: "lotes_csv d = Some rows"
      and i: "findIndex (row_matches (toUpperCase (trim id_param))) rows = Some i"
      and l0: "mapRowToLote (rows ! i) = Some l0"
      and l': "mapRowToLote (update_row now p (rows ! i)) = Some l'"
  shows "put_lote d now id_param p =
           (Status200 (Some l'),
            d\<lparr> lotes_csv := Some (map unparse_row (rows[i := update_row now p (rows ! i)])),
               writes := Suc (writes d) \<rparr>)"
    and "get_lotes (snd (put_lote d now id_param p)) =
           Status200 ((list_lotes rows)[length (list_lotes (take i rows)) := l'])"
    and "length (list_lotes (take i rows)) < length (list_lotes rows)"
    and "list_lotes rows ! length (list_lotes (take i rows)) = l0"
proof -
  from findIndex_Some [OF i] have len: "i < length rows" by simp
  show p: "put_lote d now id_param p =
           (Status200 (Some l'),
            d\<lparr> lotes_csv := Some (map unparse_row (rows[i := update_row now p (rows ! i)])),
               writes := Suc (writes d) \<rparr>)"
    using put_lote_found [OF d i, of now p] l' by simp
  show "get_lotes (snd (put_lote d now id_param p)) =
           Status200 ((list_lotes rows)[length (list_lotes (take i rows)) := l'])"
    by (simp add: p get_lotes_def readCsvState_def list_lotes_unparse
        list_lotes_update(1) [OF len l0 l'])
  show "length (list_lotes (take i rows)) < length (list_lotes rows)"
    by (rule list_lotes_update(2) [OF len l0 l'])
  show "list_lotes rows ! length (list_lotes (take i rows)) = l0"
    by (rule list_lotes_update(3) [OF len l0 l'])
qed

lemmas put_eval = put_lote_def readCsvState_def writeCsvState_def update_row_def unparse_row_def
  unparse_cell_def get_lotes_def formatReal_def toFixed2_def number_to_string_def

lemma frac_digits_numeral:
  "frac_digits (numeral n) f =
     (if f = 0 then []
      else digit_char (nat \<lfloor>10 * f\<rfloor>) # frac_digits (pred_numeral n) (10 * f - of_int \<lfloor>10 * f\<rfloor>))"
  by (simp add: numeral_eq_Suc)

lemma scenario_put1:
  "put_lote scenario_disk scenario_t1 ''A-07'' scenario_patch =
     (Status200 (Some scenario_lote_patched),
      \<lparr> lotes_csv = Some [\<lparr> MZ = Some ''A'', LOTE = Some ''7'', AREA = Some ''120.50'',
          PRECIO = Some ''45000'', CONDICION = Some ''SEPARADO'', ASESOR = Some [],
          CLIENTE = Some ''Juan Perez'', COMENTARIO = Some [],
          ULTIMA_MODIFICACION = Some ''02-nov-26 10:15:07'' \<rparr>], writes = 1 \<rparr>)"
  by (simp add: scenario_disk_def scenario_row_def scenario_patch_def scenario_lote_patched_def
      scenario_stamp put_eval row_eval num_eval str_eval)

lemma scenario_put2:
  "fst (put_lote \<lparr> lotes_csv = Some [\<lparr> MZ = Some ''A'', LOTE = Some ''7'', AREA = Some ''120.50'',
          PRECIO = Some ''45000'', CONDICION = Some ''SEPARADO'', ASESOR = Some [],
          CLIENTE = Some ''Juan Perez'', COMENTARIO = Some [],
          ULTIMA_MODIFICACION = Some ''02-nov-26 10:15:07'' \<rparr>], writes = 1 \<rparr>
        scenario_t2 ''A-07'' scenario_patch) = Status200 (Some scenario_lote_patched)"
  by (simp add: scenario_patch_def scenario_lote_patched_def
      scenario_stamp put_eval row_eval num_eval str_eval)

lemma scenario_put_price:
  "fst (put_lote scenario_disk scenario_t1 ''A-07'' (scenario_patch\<lparr> pl_price := JNum 45000.557 \<rparr>))
     = Status200 (Some (scenario_lote_patched\<lparr> price := Some 45000.56 \<rparr>))"
  by (simp add: scenario_disk_def scenario_row_def scenario_patch_def scenario_lote_patched_def
      scenario_stamp put_eval row_eval num_eval str_eval frac_digits_numeral)

lemma scenario_hyps:
  "lotes_csv scenario_disk = Some [scenario_row]"
  "scenario_lote \<in> set (list_lotes [scenario_row])"
  "lote_id scenario_lote = toUpperCase (trim '' a-07 '')"
  by (simp_all add: scenario_disk_def list_lotes_def scenario_row_lote, simp add: scenario_lote_def str_eval)

lemma cleanNumber_falsy: "\<not> truthy v \<Longrightarrow> cleanNumber v = None"
  by (simp add: cleanNumber_def)

subsection \<open>Reading: malformed rows\<close>

text \<open>
  Claim C4 (malformed-row isolation). \<open>mapRowToLote\<close> returns \<open>null\<close> exactly for the rows
  whose \<open>MZ\<close> is empty after trimming or whose \<open>LOTE\<close> does not parse as an integer; for
  every readable dataset \<open>GET /api/lotes\<close> answers 200 with the lots of exactly the other
  rows, in file order; one malformed and one valid row give a list of length 1.
\<close>
theorem malformed_row_isolation:
  "(mapRowToLote row = None \<longleftrightarrow> malformed_row row)
   \<and> (lotes_csv d = Some rows \<longrightarrow>
        get_lotes d = Status200 (map (\<lambda>r. the (mapRowToLote r)) (filter (\<lambda>r. \<not> malformed_row r) rows)))
   \<and> (malformed_row r1 \<and> \<not> malformed_row r2 \<longrightarrow>
        get_lotes \<lparr> lotes_csv = Some [r1, r2], writes = w \<rparr> = Status200 [the (mapRowToLote r2)]
      \<and> get_lotes \<lparr> lotes_csv = Some [r2, r1], writes = w \<rparr> = Status200 [the (mapRowToLote r2)])"
proof -
  have a: "mapRowToLote row = None \<longleftrightarrow> malformed_row row" by (rule mapRowToLote_None_iff)
  have b: "lotes_csv d = Some rows \<longrightarrow>
        get_lotes d = Status200 (map (\<lambda>r. the (mapRowToLote r)) (filter (\<lambda>r. \<not> malformed_row r) rows))"
    by (simp add: get_lotes_readable list_lotes_filter)
  have c: "malformed_row r1 \<and> \<not> malformed_row r2 \<longrightarrow>
        get_lotes \<lparr> lotes_csv = Some [r1, r2], writes = w \<rparr> = Status200 [the (mapRowToLote r2)]
      \<and> get_lotes \<lparr> lotes_csv = Some [r2, r1], writes = w \<rparr> = Status200 [the (mapRowToLote r2)]"
    by (simp add: get_lotes_readable list_lotes_filter)
  from a b c show ?thesis by blast
qed

theorem malformed_row_isolation_witness:
  "malformed_row scenario_bad_row \<and> \<not> malformed_row scenario_row
   \<and> get_lotes \<lparr> lotes_csv = Some [scenario_bad_row, scenario_row], writes = 0 \<rparr>
       = Status200 [scenario_lote]"
proof -
  have m1: "malformed_row scenario_bad_row"
    using malformed_row_isolation [of scenario_bad_row] scenario_bad_row_null by blast
  have m2: "\<not> malformed_row scenario_row"
    using malformed_row_isolation [of scenario_row] scenario_row_lote by simp
  from malformed_row_isolation [of scenario_row scenario_disk "[scenario_row]" scenario_bad_row scenario_row 0] m1 m2
  show ?thesis by (simp add: scenario_row_lote)
qed

subsection \<open>Updating a lot that is not there\<close>

text \<open>
  Claim C3 (not-found atomicity). When no lot of the dataset has the id that the request
  names (compared after trimming and uppercasing), \<open>PUT /api/lotes/:id\<close> answers 404 for
  every patch and leaves the file as it was: no row changes and \<open>writeFile\<close> is not called.
\<close>
theorem not_found_atomicity:
  assumes "lotes_csv d = Some rows"
      and "\<forall>l \<in> set (list_lotes rows). lote_id l \<noteq> toUpperCase (trim id_param)"
  shows "put_lote d now id_param p = (Status404, d)"
  using assms by (simp add: put_lote_absent absent_iff)

theorem not_found_atomicity_witness:
  "lotes_csv scenario_disk = Some [scenario_row]
   \<and> map lote_id (list_lotes [scenario_row]) = [''A-07'']
   \<and> toUpperCase (trim ''z-99'') = ''Z-99''
   \<and> put_lote scenario_disk scenario_t1 ''z-99'' scenario_patch = (Status404, scenario_disk)"
proof -
  have h1: "lotes_csv scenario_disk = Some [scenario_row]" by (simp add: scenario_disk_def)
  have ids: "map lote_id (list_lotes [scenario_row]) = [''A-07'']"
    by (simp add: list_lotes_def scenario_row_lote scenario_lote_def)
  have up: "toUpperCase (trim ''z-99'') = ''Z-99''" by (simp add: str_eval)
  have h2: "\<forall>l \<in> set (list_lotes [scenario_row]). lote_id l \<noteq> toUpperCase (trim ''z-99'')"
    by (simp add: list_lotes_def scenario_row_lote scenario_lote_def up)
  from not_found_atomicity [OF h1 h2] h1 ids up show ?thesis by blast
qed

subsection \<open>Updating a lot and reading it back\<close>

text \<open>
  Claim C1 (round-trip update), as amended. For every lot id present in the dataset,
  \<open>PUT /api/lotes/:id\<close> answers 200 with the first lot \<open>l0\<close> of that id changed in exactly
  these fields: \<open>condicion\<close> is the normalized \<open>estado\<close>; \<open>asesor\<close>, \<open>cliente\<close> and
  \<open>comentario\<close> are the trimmed texts (\<open>undefined\<close> when empty); \<open>price\<close> is the given
  number as read back from its two-decimal rendering (\<open>null\<close> when the value is falsy or
  not a number); a field the patch omits keeps its value; \<open>ultimaModificacion\<close> is the
  current local time to the second. The file is written once, and a following
  \<open>GET /api/lotes\<close> returns the same list as before with that lot replaced by the new one.
  The stamp has a resolution of one second, so it is not always strictly newer.
\<close>
theorem put_lote_round_trip:
  assumes "lotes_csv d = Some rows"
      and "l \<in> set (list_lotes rows)"
      and "lote_id l = toUpperCase (trim id_param)"
  shows "\<exists>i l0 l'.
           findIndex (row_matches (lote_id l)) rows = Some i
         \<and> length (list_lotes (take i rows)) < length (list_lotes rows)
         \<and> list_lotes rows ! length (list_lotes (take i rows)) = l0
         \<and> lote_id l0 = lote_id l
         \<and> fst (put_lote d now id_param p) = Status200 (Some l')
         \<and> writes (snd (put_lote d now id_param p)) = Suc (writes d)
         \<and> get_lotes (snd (put_lote d now id_param p)) =
             Status200 ((list_lotes rows)[length (list_lotes (take i rows)) := l'])
         \<and> l' = l0\<lparr>
             price := (if pl_price p = JUndefined then price l0
                       else case cleanNumber (pl_price p) of
                              None \<Rightarrow> None
                            | Some x \<Rightarrow> cleanNumber (JStr (toFixed2 x))),
             condicion := (if nullish (pl_estado p) then condicion l0
                           else normalizeStatus (pl_estado p)),
             asesor := (if nullish (pl_asesor p) then asesor l0
                        else or_undefined (trim (js_String (pl_asesor p)))),
             cliente := (if nullish (pl_cliente p) then cliente l0
                         else or_undefined (trim (js_String (pl_cliente p)))),
             comentario := (if nullish (pl_comentario p) then comentario l0
                            else or_undefined (trim (js_String (pl_comentario p)))),
             ultimaModificacion := Some (toCurrentTimestamp now) \<rparr>"
proof -
  from present_findIndex [OF assms(2)] obtain i l0 where
    i: "findIndex (row_matches (lote_id l)) rows = Some i" and
    l0: "mapRowToLote (rows ! i) = Some l0" "lote_id l0 = lote_id l" by blast
  from i assms(3) have i': "findIndex (row_matches (toUpperCase (trim id_param))) rows = Some i"
    by simp
  note u = mapRowToLote_update [OF l0(1), of now p]
  note pl = put_lote_list [OF assms(1) i' l0(1) u]
  have "fst (put_lote d now id_param p) = Status200 (Some (the (mapRowToLote (update_row now p (rows ! i)))))"
    using pl(1) u by simp
  moreover have "writes (snd (put_lote d now id_param p)) = Suc (writes d)"
    using pl(1) by simp
  ultimately show ?thesis using i l0(2) pl(2,3,4) u by (intro exI conjI) simp_all
qed

theorem put_lote_round_trip_witness:
  "lotes_csv scenario_disk = Some [scenario_row]
   \<and> scenario_lote \<in> set (list_lotes [scenario_row])
   \<and> lote_id scenario_lote = toUpperCase (trim '' a-07 '')
   \<and> fst (put_lote scenario_disk scenario_t1 '' a-07 '' scenario_patch)
        = Status200 (Some scenario_lote_patched)
   \<and> get_lotes (snd (put_lote scenario_disk scenario_t1 '' a-07 '' scenario_patch))
        = Status200 [scenario_lote_patched]"
proof -
  note h = scenario_hyps
  have ll: "list_lotes [scenario_row] = [scenario_lote]"
    by (simp add: list_lotes_def scenario_row_lote)
  from put_lote_round_trip [OF h, of scenario_t1 scenario_patch]
  obtain i l0 l' where
    k: "length (list_lotes (take i [scenario_row])) < length (list_lotes [scenario_row])" and
    l0: "list_lotes [scenario_row] ! length (list_lotes (take i [scenario_row])) = l0" and
    r: "fst (put_lote scenario_disk scenario_t1 '' a-07 '' scenario_patch) = Status200 (Some l')" and
    g: "get_lotes (snd (put_lote scenario_disk scenario_t1 '' a-07 '' scenario_patch)) =
          Status200 ((list_lotes [scenario_row])[length (list_lotes (take i [scenario_row])) := l'])" and
    l': "l' = l0\<lparr>
             price := (if pl_price scenario_patch = JUndefined then price l0
                       else case cleanNumber (pl_price scenario_patch) of
                              None \<Rightarrow> None
                            | Some x \<Rightarrow> cleanNumber (JStr (toFixed2 x))),
             condicion := (if nullish (pl_estado scenario_patch) then condicion l0
                           else normalizeStatus (pl_estado scenario_patch)),
             asesor := (if nullish (pl_asesor scenario_patch) then asesor l0
                        else or_undefined (trim (js_String (pl_asesor scenario_patch)))),
             cliente := (if nullish (pl_cliente scenario_patch) then cliente l0
                         else or_undefined (trim (js_String (pl_cliente scenario_patch)))),
             comentario := (if nullish (pl_comentario scenario_patch) then comentario l0
                            else or_undefined (trim (js_String (pl_comentario scenario_patch)))),
             ultimaModificacion := Some (toCurrentTimestamp scenario_t1) \<rparr>"
    by blast
  from k have k0: "length (list_lotes (take i [scenario_row])) = 0" by (simp add: ll)
  from l0 k0 have l0': "l0 = scenario_lote" by (simp add: ll)
  have "l' = scenario_lote_patched"
    by (simp add: l' l0' scenario_lote_def scenario_lote_patched_def scenario_patch_def
        scenario_stamp normalizeStatus_def js_or_def ALLOWED_STATUS_def or_undefined_def str_eval)
  with r g k0 h show ?thesis by (simp add: ll)
qed

theorem put_lote_round_trip_counterexample:
  "fst (put_lote scenario_disk scenario_t1 ''A-07'' scenario_patch)
     = Status200 (Some scenario_lote_patched)
   \<and> fst (put_lote (snd (put_lote scenario_disk scenario_t1 ''A-07'' scenario_patch))
            scenario_t2 ''A-07'' scenario_patch)
     = Status200 (Some scenario_lote_patched)
   \<and> getSeconds scenario_t1 = getSeconds scenario_t2
   \<and> getMilliseconds scenario_t1 < getMilliseconds scenario_t2
   \<and> ultimaModificacion scenario_lote_patched = Some ''02-nov-26 10:15:07''
   \<and> fst (put_lote scenario_disk scenario_t1 ''A-07'' (scenario_patch\<lparr> pl_price := JNum 45000.557 \<rparr>))
     = Status200 (Some (scenario_lote_patched\<lparr> price := Some 45000.56 \<rparr>))"
proof -
  have a: "fst (put_lote scenario_disk scenario_t1 ''A-07'' scenario_patch)
     = Status200 (Some scenario_lote_patched)"
    by (simp only: scenario_put1 fst_conv)
  have b: "fst (put_lote (snd (put_lote scenario_disk scenario_t1 ''A-07'' scenario_patch))
            scenario_t2 ''A-07'' scenario_patch)
     = Status200 (Some scenario_lote_patched)"
    by (simp only: scenario_put1 snd_conv scenario_put2)
  have c: "getSeconds scenario_t1 = getSeconds scenario_t2"
    "getMilliseconds scenario_t1 < getMilliseconds scenario_t2"
    by (simp_all add: scenario_t1_def scenario_t2_def)
  have e: "ultimaModificacion scenario_lote_patched = Some ''02-nov-26 10:15:07''"
    by (simp add: scenario_lote_patched_def)
  from a b c e scenario_put_price show ?thesis by blast
qed

subsection \<open>Updating a price to zero\<close>

text \<open>
  Claim C10 (a price of zero clears the price). \<open>cleanNumber(0)\<close> is \<open>null\<close>, as for every
  falsy value. So for every lot present in the dataset a \<open>PUT\<close> whose body has \<open>price: 0\<close>
  stores an empty \<open>PRECIO\<close> cell, returns the lot with \<open>price = null\<close>, and the following
  \<open>GET /api/lotes\<close> lists that lot with \<open>price = null\<close>.
\<close>
theorem price_zero_clears:
  assumes "lotes_csv d = Some rows"
      and "l \<in> set (list_lotes rows)"
      and "lote_id l = toUpperCase (trim id_param)"
      and "pl_price p = JNum 0"
  shows "cleanNumber (JNum 0) = None
       \<and> (\<exists>i l' rows'.
             findIndex (row_matches (lote_id l)) rows = Some i
           \<and> fst (put_lote d now id_param p) = Status200 (Some l')
           \<and> price l' = None
           \<and> lotes_csv (snd (put_lote d now id_param p)) = Some rows'
           \<and> PRECIO (rows' ! i) = Some []
           \<and> length (list_lotes (take i rows)) < length (list_lotes rows)
           \<and> get_lotes (snd (put_lote d now id_param p)) =
               Status200 ((list_lotes rows)[length (list_lotes (take i rows)) := l']))"
proof -
  have z: "cleanNumber (JNum 0) = None" by (simp add: cleanNumber_falsy)
  from present_findIndex [OF assms(2)] obtain i l0 where
    i: "findIndex (row_matches (lote_id l)) rows = Some i" and
    len: "i < length rows" and
    l0: "mapRowToLote (rows ! i) = Some l0" by blast
  from i assms(3) have i': "findIndex (row_matches (toUpperCase (trim id_param))) rows = Some i"
    by simp
  note u = mapRowToLote_update [OF l0, of now p]
  note pl = put_lote_list [OF assms(1) i' l0 u]
  let ?l' = "the (mapRowToLote (update_row now p (rows ! i)))"
  let ?rows' = "map unparse_row (rows[i := update_row now p (rows ! i)])"
  have a: "fst (put_lote d now id_param p) = Status200 (Some ?l')" using pl(1) u by simp
  have b: "price ?l' = None" using u assms(4) z by simp
  have c: "lotes_csv (snd (put_lote d now id_param p)) = Some ?rows'" using pl(1) by simp
  have e: "PRECIO (?rows' ! i) = Some []"
    using len assms(4) z by (simp add: unparse_row_sel update_row_sel unparse_cell_def)
  have f: "get_lotes (snd (put_lote d now id_param p)) =
               Status200 ((list_lotes rows)[length (list_lotes (take i rows)) := ?l'])"
    using pl(2) u by simp
  from i a b c e pl(3) f have "\<exists>i l' rows'.
             findIndex (row_matches (lote_id l)) rows = Some i
           \<and> fst (put_lote d now id_param p) = Status200 (Some l')
           \<and> price l' = None
           \<and> lotes_csv (snd (put_lote d now id_param p)) = Some rows'
           \<and> PRECIO (rows' ! i) = Some []
           \<and> length (list_lotes (take i rows)) < length (list_lotes rows)
           \<and> get_lotes (snd (put_lote d now id_param p)) =
               Status200 ((list_lotes rows)[length (list_lotes (take i rows)) := l'])"
    by blast
  with z show ?thesis by blast
qed

theorem price_zero_clears_witness:
  "lotes_csv scenario_disk = Some [scenario_row]
   \<and> scenario_lote \<in> set (list_lotes [scenario_row])
   \<and> lote_id scenario_lote = toUpperCase (trim '' a-07 '')
   \<and> pl_price (scenario_patch\<lparr> pl_price := JNum 0 \<rparr>) = JNum 0
   \<and> price scenario_lote = Some 45000
   \<and> (\<exists>l'. fst (put_lote scenario_disk scenario_t1 '' a-07 '' (scenario_patch\<lparr> pl_price := JNum 0 \<rparr>))
               = Status200 (Some l')
           \<and> price l' = None
           \<and> get_lotes (snd (put_lote scenario_disk scenario_t1 '' a-07 ''
                               (scenario_patch\<lparr> pl_price := JNum 0 \<rparr>)))
               = Status200 [l'])"
proof -
  note h = scenario_hyps
  have h4: "pl_price (scenario_patch\<lparr> pl_price := JNum 0 \<rparr>) = JNum 0" by simp
  have ll: "list_lotes [scenario_row] = [scenario_lote]"
    by (simp add: list_lotes_def scenario_row_lote)
  from price_zero_clears [OF h h4, of scenario_t1]
  obtain i l' where
    k: "length (list_lotes (take i [scenario_row])) < length (list_lotes [scenario_row])" and
    r: "fst (put_lote scenario_disk scenario_t1 '' a-07 '' (scenario_patch\<lparr> pl_price := JNum 0 \<rparr>))
          = Status200 (Some l')" and
    n: "price l' = None" and
    g: "get_lotes (snd (put_lote scenario_disk scenario_t1 '' a-07 '' (scenario_patch\<lparr> pl_price := JNum 0 \<rparr>))) =
          Status200 ((list_lotes [scenario_row])[length (list_lotes (take i [scenario_row])) := l'])"
    by blast
  from k have k0: "length (list_lotes (take i [scenario_row])) = 0" by (simp add: ll)
  from g k0 have "get_lotes (snd (put_lote scenario_disk scenario_t1 '' a-07 ''
                               (scenario_patch\<lparr> pl_price := JNum 0 \<rparr>))) = Status200 [l']"
    by (simp add: ll)
  with r n h h4 show ?thesis by (simp add: scenario_lote_def)
qed

end
